theory Spec2Isabelle
  imports Main "HOL-Library.Code_Target_Nat"
begin

section \<open>Element types, exceptions and the allocator\<close>

text \<open>
  The container of \<^verbatim>\<open>vector.h\<close> is a template over an element type \<^verbatim>\<open>T\<close>.  What the
  code depends on is collected in a record: the two traits tested by \<^verbatim>\<open>CopyTo\<close>, the value
  produced by value-initialisation \<^verbatim>\<open>T()\<close>, the state a moved-from object is left in, and
  which operations of \<^verbatim>\<open>T\<close> throw.  Every constructor call and every assignment of \<^verbatim>\<open>T\<close>
  is an event; events are numbered by a counter in the environment and \<open>throws et n\<close> says
  that the \<open>n\<close>-th event throws.  Destructors do not throw.  A move construction of a type
  with \<^verbatim>\<open>is_nothrow_move_constructible_v\<close> is an event that never throws.
\<close>

record 'a elem_type =
  throws :: "nat \<Rightarrow> bool"
  is_nothrow_move_constructible :: bool
  is_copy_constructible :: bool
  value_init :: 'a
  moved_from :: "'a \<Rightarrow> 'a"

text \<open>
  The environment counts the element events and logs every block handed to
  \<^verbatim>\<open>operator delete\<close>, as it was at that moment: a slot that is still \<open>Some v\<close> in a
  freed block is an object whose destructor was never run.
\<close>

record 'a env =
  ctr :: nat
  freed :: "'a option list list"

definition tick :: "'a env \<Rightarrow> 'a env" where
  "tick e = e\<lparr>ctr := Suc (ctr e)\<rparr>"

text \<open>
  An operation returns normally with a result and a state, leaves by an exception with a
  state, or has undefined behaviour: an access outside the allocated block, a read of a
  slot that holds no object, an iterator range whose end precedes its start, a failed
  \<^verbatim>\<open>assert\<close>.
\<close>

datatype ('r, 's) outcome = Returns 'r 's | Throws 's | Undefined

text \<open>\<^verbatim>\<open>size_t\<close> is 64 bits wide; the arithmetic that can wrap is written out.\<close>

definition size_t_inc :: "nat \<Rightarrow> nat" where
  "size_t_inc n = (n + 1) mod 2 ^ 64"

definition size_t_dec :: "nat \<Rightarrow> nat" where
  "size_t_dec n = (n + 2 ^ 64 - 1) mod 2 ^ 64"

definition size_t_mul :: "nat \<Rightarrow> nat \<Rightarrow> nat" where
  "size_t_mul n k = (n * k) mod 2 ^ 64"

section \<open>Raw slots and the standard algorithms on them\<close>

text \<open>
  A block of raw memory for \<open>n\<close> elements is a list of \<open>n\<close> slots; \<open>None\<close> is a slot that
  holds no object, \<open>Some v\<close> a live object with value \<open>v\<close>.  A pointer into a block is the
  index of its slot.  Constructing or assigning through a pointer inside the block stores
  the value, destroying empties the slot; outside the block each is undefined.
\<close>

definition read_slot :: "'a option list \<Rightarrow> nat \<Rightarrow> 'a option" where
  "read_slot buf i = (if i < length buf then buf ! i else None)"

definition destroy_at :: "'a option list \<Rightarrow> nat \<Rightarrow> 'a option list option" where
  "destroy_at buf i = (if i < length buf then Some (buf[i := None]) else None)"

fun destroy_n :: "'a option list \<Rightarrow> nat \<Rightarrow> nat \<Rightarrow> 'a option list option" where
  "destroy_n buf first 0 = Some buf"
| "destroy_n buf first (Suc n) =
     (case destroy_at buf first of
        None \<Rightarrow> None
      | Some buf' \<Rightarrow> destroy_n buf' (Suc first) n)"

text \<open>\<^verbatim>\<open>new (p) T(args...)\<close>: the constructor may throw, and then nothing is stored.\<close>

definition placement_new ::
  "'a elem_type \<Rightarrow> 'a option list \<Rightarrow> nat \<Rightarrow> 'a \<Rightarrow> 'a env \<Rightarrow> (unit, 'a option list \<times> 'a env) outcome" where
  "placement_new et buf i x e =
     (if length buf \<le> i then Undefined
      else if throws et (ctr e) then Throws (buf, tick e)
      else Returns () (buf[i := Some x], tick e))"

text \<open>
  \<^verbatim>\<open>std::uninitialized_value_construct_n(first, n)\<close>: constructs \<^verbatim>\<open>T()\<close> in \<open>n\<close> slots
  from \<open>first\<close>; when a constructor throws, the objects constructed so far are destroyed
  and the exception is rethrown.
\<close>

fun uninitialized_value_construct_loop ::
  "'a elem_type \<Rightarrow> 'a option list \<Rightarrow> nat \<Rightarrow> nat \<Rightarrow> nat \<Rightarrow> 'a env
     \<Rightarrow> (nat, 'a option list \<times> 'a env) outcome" where
  "uninitialized_value_construct_loop et buf first cur 0 e = Returns cur (buf, e)"
| "uninitialized_value_construct_loop et buf first cur (Suc n) e =
     (if length buf \<le> cur then Undefined
      else if throws et (ctr e) then
        (case destroy_n buf first (cur - first) of
           None \<Rightarrow> Undefined
         | Some buf' \<Rightarrow> Throws (buf', tick e))
      else uninitialized_value_construct_loop et (buf[cur := Some (value_init et)])
             first (Suc cur) n (tick e))"

definition uninitialized_value_construct_n ::
  "'a elem_type \<Rightarrow> 'a option list \<Rightarrow> nat \<Rightarrow> nat \<Rightarrow> 'a env
     \<Rightarrow> (nat, 'a option list \<times> 'a env) outcome" where
  "uninitialized_value_construct_n et buf first n e =
     uninitialized_value_construct_loop et buf first first n e"

text \<open>
  \<^verbatim>\<open>std::uninitialized_copy_n(first, n, d_first)\<close> from a block \<open>src\<close> into a different
  block \<open>dst\<close>: copy-constructs, with the same clean-up of the destination on a throw.
\<close>

fun uninitialized_copy_loop ::
  "'a elem_type \<Rightarrow> 'a option list \<Rightarrow> nat \<Rightarrow> nat \<Rightarrow> 'a option list \<Rightarrow> nat \<Rightarrow> nat \<Rightarrow> 'a env
     \<Rightarrow> (nat, 'a option list \<times> 'a env) outcome" where
  "uninitialized_copy_loop et src first 0 dst d_first cur e = Returns cur (dst, e)"
| "uninitialized_copy_loop et src first (Suc n) dst d_first cur e =
     (case read_slot src first of
        None \<Rightarrow> Undefined
      | Some v \<Rightarrow>
          if length dst \<le> cur then Undefined
          else if throws et (ctr e) then
            (case destroy_n dst d_first (cur - d_first) of
               None \<Rightarrow> Undefined
             | Some dst' \<Rightarrow> Throws (dst', tick e))
          else uninitialized_copy_loop et src (Suc first) n (dst[cur := Some v])
                 d_first (Suc cur) (tick e))"

definition uninitialized_copy_n ::
  "'a elem_type \<Rightarrow> 'a option list \<Rightarrow> nat \<Rightarrow> nat \<Rightarrow> 'a option list \<Rightarrow> nat \<Rightarrow> 'a env
     \<Rightarrow> (nat, 'a option list \<times> 'a env) outcome" where
  "uninitialized_copy_n et src first n dst d_first e =
     uninitialized_copy_loop et src first n dst d_first d_first e"

text \<open>
  \<^verbatim>\<open>std::uninitialized_move_n(first, n, d_first)\<close>: as above with move construction, which
  leaves each source object in its moved-from state.  The state is the pair of blocks.
\<close>

fun uninitialized_move_loop ::
  "'a elem_type \<Rightarrow> 'a option list \<Rightarrow> nat \<Rightarrow> nat \<Rightarrow> 'a option list \<Rightarrow> nat \<Rightarrow> nat \<Rightarrow> 'a env
     \<Rightarrow> (nat, 'a option list \<times> 'a option list \<times> 'a env) outcome" where
  "uninitialized_move_loop et src first 0 dst d_first cur e = Returns cur (src, dst, e)"
| "uninitialized_move_loop et src first (Suc n) dst d_first cur e =
     (case read_slot src first of
        None \<Rightarrow> Undefined
      | Some v \<Rightarrow>
          if length dst \<le> cur then Undefined
          else if \<not> is_nothrow_move_constructible et \<and> throws et (ctr e) then
            (case destroy_n dst d_first (cur - d_first) of
               None \<Rightarrow> Undefined
             | Some dst' \<Rightarrow> Throws (src, dst', tick e))
          else uninitialized_move_loop et (src[first := Some (moved_from et v)]) (Suc first) n
                 (dst[cur := Some v]) d_first (Suc cur) (tick e))"

definition uninitialized_move_n ::
  "'a elem_type \<Rightarrow> 'a option list \<Rightarrow> nat \<Rightarrow> nat \<Rightarrow> 'a option list \<Rightarrow> nat \<Rightarrow> 'a env
     \<Rightarrow> (nat, 'a option list \<times> 'a option list \<times> 'a env) outcome" where
  "uninitialized_move_n et src first n dst d_first e =
     uninitialized_move_loop et src first n dst d_first d_first e"

text \<open>
  \<^verbatim>\<open>std::copy_n(first, n, d_first)\<close> between two blocks: copy assignment, slot by slot;
  a throwing assignment leaves what was assigned so far.
\<close>

fun copy_n ::
  "'a elem_type \<Rightarrow> 'a option list \<Rightarrow> nat \<Rightarrow> nat \<Rightarrow> 'a option list \<Rightarrow> nat \<Rightarrow> 'a env
     \<Rightarrow> (nat, 'a option list \<times> 'a env) outcome" where
  "copy_n et src first 0 dst d_first e = Returns d_first (dst, e)"
| "copy_n et src first (Suc n) dst d_first e =
     (case read_slot src first of
        None \<Rightarrow> Undefined
      | Some v \<Rightarrow>
          if length dst \<le> d_first then Undefined
          else if throws et (ctr e) then Throws (dst, tick e)
          else copy_n et src (Suc first) n (dst[d_first := Some v]) (Suc d_first) (tick e))"

text \<open>
  \<^verbatim>\<open>std::move_backward(first, last, d_last)\<close> inside one block: move assignment from the
  last element of the range to the first.  \<open>n\<close> is the number of elements still to move.
\<close>

fun move_backward_loop ::
  "'a elem_type \<Rightarrow> 'a option list \<Rightarrow> nat \<Rightarrow> nat \<Rightarrow> nat \<Rightarrow> 'a env
     \<Rightarrow> (nat, 'a option list \<times> 'a env) outcome" where
  "move_backward_loop et buf 0 lst d_last e = Returns d_last (buf, e)"
| "move_backward_loop et buf (Suc n) lst d_last e =
     (if lst = 0 \<or> d_last = 0 then Undefined
      else case read_slot buf (lst - 1) of
        None \<Rightarrow> Undefined
      | Some v \<Rightarrow>
          if length buf \<le> d_last - 1 then Undefined
          else if throws et (ctr e) then Throws (buf, tick e)
          else move_backward_loop et
                 ((buf[d_last - 1 := Some v])[lst - 1 := Some (moved_from et v)])
                 n (lst - 1) (d_last - 1) (tick e))"

definition move_backward ::
  "'a elem_type \<Rightarrow> 'a option list \<Rightarrow> nat \<Rightarrow> nat \<Rightarrow> nat \<Rightarrow> 'a env
     \<Rightarrow> (nat, 'a option list \<times> 'a env) outcome" where
  "move_backward et buf first lst d_last e =
     (if lst < first then Undefined
      else move_backward_loop et buf (lst - first) lst d_last e)"

text \<open>
  \<^verbatim>\<open>std::move(first, last, d_first)\<close> inside one block: move assignment from the first
  element of the range to the last.
\<close>

fun std_move_loop ::
  "'a elem_type \<Rightarrow> 'a option list \<Rightarrow> nat \<Rightarrow> nat \<Rightarrow> nat \<Rightarrow> 'a env
     \<Rightarrow> (nat, 'a option list \<times> 'a env) outcome" where
  "std_move_loop et buf first 0 d_first e = Returns d_first (buf, e)"
| "std_move_loop et buf first (Suc n) d_first e =
     (case read_slot buf first of
        None \<Rightarrow> Undefined
      | Some v \<Rightarrow>
          if length buf \<le> d_first then Undefined
          else if throws et (ctr e) then Throws (buf, tick e)
          else std_move_loop et
                 ((buf[d_first := Some v])[first := Some (moved_from et v)])
                 (Suc first) n (Suc d_first) (tick e))"

definition std_move ::
  "'a elem_type \<Rightarrow> 'a option list \<Rightarrow> nat \<Rightarrow> nat \<Rightarrow> nat \<Rightarrow> 'a env
     \<Rightarrow> (nat, 'a option list \<times> 'a env) outcome" where
  "std_move et buf first lst d_first e =
     (if lst < first then Undefined
      else std_move_loop et buf first (lst - first) d_first e)"

section \<open>RawMemory\<close>

text \<open>
  \<^verbatim>\<open>RawMemory<T>\<close> owns a block and records its capacity.  \<^verbatim>\<open>Allocate\<close> is assumed
  to succeed (\<^verbatim>\<open>std::bad_alloc\<close> is not modelled); \<^verbatim>\<open>Deallocate\<close> logs the block.
\<close>

text \<open>
  The data members \<^verbatim>\<open>buffer_\<close>, \<^verbatim>\<open>capacity_\<close>, \<^verbatim>\<open>data_\<close> and \<^verbatim>\<open>size_\<close> are the
  fields \<open>m_buffer\<close>, \<open>m_capacity\<close>, \<open>m_data\<close> and \<open>m_size\<close>.
\<close>

record 'a RawMemory =
  m_buffer :: "'a option list"
  m_capacity :: nat

definition Allocate :: "nat \<Rightarrow> 'a option list" where
  "Allocate n = (if n \<noteq> 0 then replicate n None else [])"

definition Deallocate :: "'a option list \<Rightarrow> 'a env \<Rightarrow> 'a env" where
  "Deallocate buf e = e\<lparr>freed := freed e @ [buf]\<rparr>"

definition RawMemory_default :: "'a RawMemory" where
  "RawMemory_default = \<lparr>m_buffer = [], m_capacity = 0\<rparr>"

definition RawMemory_new :: "nat \<Rightarrow> 'a RawMemory" where
  "RawMemory_new capacity = \<lparr>m_buffer = Allocate capacity, m_capacity = capacity\<rparr>"

definition RawMemory_dtor :: "'a RawMemory \<Rightarrow> 'a env \<Rightarrow> 'a env" where
  "RawMemory_dtor m e = Deallocate (m_buffer m) e"

text \<open>\<^verbatim>\<open>operator+\<close> and \<^verbatim>\<open>operator[]\<close>: the slot index, or \<open>None\<close> when the \<^verbatim>\<open>assert\<close> fails.\<close>

definition RawMemory_plus :: "'a RawMemory \<Rightarrow> nat \<Rightarrow> nat option" where
  "RawMemory_plus m offset = (if offset \<le> m_capacity m then Some offset else None)"

definition RawMemory_index :: "'a RawMemory \<Rightarrow> nat \<Rightarrow> nat option" where
  "RawMemory_index m i = (if i < m_capacity m then Some i else None)"

definition RawMemory_Swap :: "'a RawMemory \<Rightarrow> 'a RawMemory \<Rightarrow> 'a RawMemory \<times> 'a RawMemory" where
  "RawMemory_Swap m other =
     (m\<lparr>m_buffer := m_buffer other, m_capacity := m_capacity other\<rparr>,
      other\<lparr>m_buffer := m_buffer m, m_capacity := m_capacity m\<rparr>)"

section \<open>Vector\<close>

record 'a Vector =
  m_data :: "'a RawMemory"
  m_size :: nat

text \<open>
  An iterator is a \<^verbatim>\<open>T*\<close>; it is modelled by its distance in elements from
  \<^verbatim>\<open>data_.GetAddress()\<close> of the vector it is used with, which may be negative or beyond
  the end.
\<close>

definition Vector_begin :: "'a Vector \<Rightarrow> int" where
  "Vector_begin v = 0"

definition Vector_end :: "'a Vector \<Rightarrow> int" where
  "Vector_end v = int (m_size v)"

definition Size :: "'a Vector \<Rightarrow> nat" where
  "Size v = m_size v"

definition Capacity :: "'a Vector \<Rightarrow> nat" where
  "Capacity v = m_capacity (m_data v)"

definition set_buffer :: "'a Vector \<Rightarrow> 'a option list \<Rightarrow> 'a Vector" where
  "set_buffer v buf = v\<lparr>m_data := (m_data v)\<lparr>m_buffer := buf\<rparr>\<rparr>"

text \<open>\<^verbatim>\<open>operator[]\<close>: the element, or \<open>None\<close> when an \<^verbatim>\<open>assert\<close> fails or the slot is empty.\<close>

definition Vector_index :: "'a Vector \<Rightarrow> nat \<Rightarrow> 'a option" where
  "Vector_index v i =
     (if i < m_size v then
        (case RawMemory_index (m_data v) i of
           None \<Rightarrow> None
         | Some p \<Rightarrow> read_slot (m_buffer (m_data v)) p)
      else None)"

definition Vector_default :: "'a Vector" where
  "Vector_default = \<lparr>m_data = RawMemory_default, m_size = 0\<rparr>"

text \<open>
  The constructors.  When the body of a constructor throws, the member \<^verbatim>\<open>data_\<close> is
  destroyed, which frees the block; no vector exists afterwards.
\<close>

definition Vector_sized :: "'a elem_type \<Rightarrow> nat \<Rightarrow> 'a env \<Rightarrow> ('a Vector, 'a env) outcome" where
  "Vector_sized et n e =
     (let d = RawMemory_new n in
      case uninitialized_value_construct_n et (m_buffer d) 0 n e of
        Undefined \<Rightarrow> Undefined
      | Throws (buf, e') \<Rightarrow> Throws (RawMemory_dtor (d\<lparr>m_buffer := buf\<rparr>) e')
      | Returns _ (buf, e') \<Rightarrow> Returns \<lparr>m_data = d\<lparr>m_buffer := buf\<rparr>, m_size = n\<rparr> e')"

definition Vector_copy :: "'a elem_type \<Rightarrow> 'a Vector \<Rightarrow> 'a env \<Rightarrow> ('a Vector, 'a env) outcome" where
  "Vector_copy et other e =
     (let d = RawMemory_new (m_size other) in
      case uninitialized_copy_n et (m_buffer (m_data other)) 0 (m_size other) (m_buffer d) 0 e of
        Undefined \<Rightarrow> Undefined
      | Throws (buf, e') \<Rightarrow> Throws (RawMemory_dtor (d\<lparr>m_buffer := buf\<rparr>) e')
      | Returns _ (buf, e') \<Rightarrow> Returns \<lparr>m_data = d\<lparr>m_buffer := buf\<rparr>, m_size = m_size other\<rparr> e')"

text \<open>\<^verbatim>\<open>Swap\<close> of two vector objects: the new states of \<^verbatim>\<open>*this\<close> and of \<^verbatim>\<open>other\<close>.\<close>

definition Swap :: "'a Vector \<Rightarrow> 'a Vector \<Rightarrow> 'a Vector \<times> 'a Vector" where
  "Swap v other =
     (let (d, od) = RawMemory_Swap (m_data v) (m_data other)
      in (v\<lparr>m_data := d, m_size := m_size other\<rparr>, other\<lparr>m_data := od, m_size := m_size v\<rparr>))"

text \<open>
  The move constructor: the new object starts from the default member initialisers and
  swaps with \<^verbatim>\<open>other\<close>.  The result is the new object, the state of \<^verbatim>\<open>other\<close> and the
  environment.
\<close>

definition Vector_move :: "'a Vector \<Rightarrow> 'a env \<Rightarrow> ('a Vector, 'a Vector \<times> 'a env) outcome" where
  "Vector_move other e = (let (v, other') = Swap Vector_default other in Returns v (other', e))"

definition Vector_dtor :: "'a Vector \<Rightarrow> 'a env \<Rightarrow> 'a env option" where
  "Vector_dtor v e =
     (case destroy_n (m_buffer (m_data v)) 0 (m_size v) of
        None \<Rightarrow> None
      | Some buf \<Rightarrow> Some (RawMemory_dtor ((m_data v)\<lparr>m_buffer := buf\<rparr>) e))"

text \<open>
  \<^verbatim>\<open>CopyTo\<close> relocates \<open>[from, to)\<close> of the vector into \<open>new_data\<close> from slot \<open>pos\<close>, by
  move or by copy as the traits decide.  The state is the vector, the new block and the
  environment.
\<close>

definition CopyTo ::
  "'a elem_type \<Rightarrow> 'a Vector \<Rightarrow> 'a RawMemory \<Rightarrow> nat \<Rightarrow> nat \<Rightarrow> nat \<Rightarrow> 'a env
     \<Rightarrow> (unit, 'a Vector \<times> 'a RawMemory \<times> 'a env) outcome" where
  "CopyTo et v new_data from to pos e =
     (if is_nothrow_move_constructible et \<or> \<not> is_copy_constructible et then
        (case uninitialized_move_n et (m_buffer (m_data v)) from (to - from) (m_buffer new_data) pos e of
           Undefined \<Rightarrow> Undefined
         | Throws (src, dst, e') \<Rightarrow> Throws (set_buffer v src, new_data\<lparr>m_buffer := dst\<rparr>, e')
         | Returns _ (src, dst, e') \<Rightarrow> Returns () (set_buffer v src, new_data\<lparr>m_buffer := dst\<rparr>, e'))
      else
        (case uninitialized_copy_n et (m_buffer (m_data v)) from (to - from) (m_buffer new_data) pos e of
           Undefined \<Rightarrow> Undefined
         | Throws (dst, e') \<Rightarrow> Throws (v, new_data\<lparr>m_buffer := dst\<rparr>, e')
         | Returns _ (dst, e') \<Rightarrow> Returns () (v, new_data\<lparr>m_buffer := dst\<rparr>, e')))"

definition SwapCopy ::
  "'a elem_type \<Rightarrow> 'a Vector \<Rightarrow> 'a RawMemory \<Rightarrow> 'a env
     \<Rightarrow> (unit, 'a Vector \<times> 'a RawMemory \<times> 'a env) outcome" where
  "SwapCopy et v new_data e =
     (case CopyTo et v new_data 0 (m_size v) 0 e of
        Undefined \<Rightarrow> Undefined
      | Throws s \<Rightarrow> Throws s
      | Returns _ (v1, nd1, e1) \<Rightarrow>
          (case destroy_n (m_buffer (m_data v1)) 0 (m_size v1) of
             None \<Rightarrow> Undefined
           | Some buf \<Rightarrow>
               (let (d, nd2) = RawMemory_Swap ((m_data v1)\<lparr>m_buffer := buf\<rparr>) nd1
                in Returns () (v1\<lparr>m_data := d\<rparr>, nd2, e1))))"

text \<open>
  In the methods below a local \<^verbatim>\<open>RawMemory<T> new_data\<close> is destroyed when its scope is
  left, normally or by an exception.
\<close>

definition Reserve ::
  "'a elem_type \<Rightarrow> nat \<Rightarrow> 'a Vector \<Rightarrow> 'a env \<Rightarrow> (unit, 'a Vector \<times> 'a env) outcome" where
  "Reserve et new_capacity v e =
     (if new_capacity \<le> m_capacity (m_data v) then Returns () (v, e)
      else
        (case SwapCopy et v (RawMemory_new new_capacity) e of
           Undefined \<Rightarrow> Undefined
         | Throws (v', nd, e') \<Rightarrow> Throws (v', RawMemory_dtor nd e')
         | Returns _ (v', nd, e') \<Rightarrow> Returns () (v', RawMemory_dtor nd e')))"

definition Resize ::
  "'a elem_type \<Rightarrow> nat \<Rightarrow> 'a Vector \<Rightarrow> 'a env \<Rightarrow> (unit, 'a Vector \<times> 'a env) outcome" where
  "Resize et new_size v e =
     (if new_size < m_size v then
        (case destroy_n (m_buffer (m_data v)) new_size (m_size v - new_size) of
           None \<Rightarrow> Undefined
         | Some buf \<Rightarrow> Returns () ((set_buffer v buf)\<lparr>m_size := new_size\<rparr>, e))
      else
        (case Reserve et new_size v e of
           Undefined \<Rightarrow> Undefined
         | Throws s \<Rightarrow> Throws s
         | Returns _ (v1, e1) \<Rightarrow>
             (case uninitialized_value_construct_n et (m_buffer (m_data v1)) new_size
                     (new_size - m_size v1) e1 of
                Undefined \<Rightarrow> Undefined
              | Throws (buf, e2) \<Rightarrow> Throws (set_buffer v1 buf, e2)
              | Returns _ (buf, e2) \<Rightarrow> Returns () ((set_buffer v1 buf)\<lparr>m_size := new_size\<rparr>, e2))))"

text \<open>
  \<^verbatim>\<open>EmplaceBack(args...)\<close>, with \<open>x\<close> the value that \<^verbatim>\<open>T(args...)\<close> constructs.  The
  result is the slot of the returned reference \<^verbatim>\<open>data_[size_ - 1]\<close>.
\<close>

definition EmplaceBack ::
  "'a elem_type \<Rightarrow> 'a \<Rightarrow> 'a Vector \<Rightarrow> 'a env \<Rightarrow> (nat, 'a Vector \<times> 'a env) outcome" where
  "EmplaceBack et x v e =
     (case
        (if m_size v = Capacity v then
           (let new_data = RawMemory_new (if m_size v = 0 then 1 else size_t_mul (m_size v) 2) in
            case RawMemory_plus new_data (m_size v) of
              None \<Rightarrow> Undefined
            | Some p \<Rightarrow>
                (case placement_new et (m_buffer new_data) p x e of
                   Undefined \<Rightarrow> Undefined
                 | Throws (nb, e1) \<Rightarrow> Throws (v, RawMemory_dtor (new_data\<lparr>m_buffer := nb\<rparr>) e1)
                 | Returns _ (nb, e1) \<Rightarrow>
                     (case SwapCopy et v (new_data\<lparr>m_buffer := nb\<rparr>) e1 of
                        Undefined \<Rightarrow> Undefined
                      | Throws (v', nd, e2) \<Rightarrow> Throws (v', RawMemory_dtor nd e2)
                      | Returns _ (v', nd, e2) \<Rightarrow> Returns () (v', RawMemory_dtor nd e2))))
         else
           (case RawMemory_plus (m_data v) (m_size v) of
              None \<Rightarrow> Undefined
            | Some p \<Rightarrow>
                (case placement_new et (m_buffer (m_data v)) p x e of
                   Undefined \<Rightarrow> Undefined
                 | Throws (buf, e1) \<Rightarrow> Throws (v, e1)
                 | Returns _ (buf, e1) \<Rightarrow> Returns () (set_buffer v buf, e1))))
      of
        Undefined \<Rightarrow> Undefined
      | Throws s \<Rightarrow> Throws s
      | Returns _ (v1, e1) \<Rightarrow>
          (let v2 = v1\<lparr>m_size := size_t_inc (m_size v1)\<rparr> in
           case RawMemory_index (m_data v2) (m_size v2 - 1) of
             None \<Rightarrow> Undefined
           | Some r \<Rightarrow> Returns r (v2, e1)))"

definition PushBack ::
  "'a elem_type \<Rightarrow> 'a \<Rightarrow> 'a Vector \<Rightarrow> 'a env \<Rightarrow> (unit, 'a Vector \<times> 'a env) outcome" where
  "PushBack et val v e =
     (case EmplaceBack et val v e of
        Undefined \<Rightarrow> Undefined
      | Throws s \<Rightarrow> Throws s
      | Returns _ s \<Rightarrow> Returns () s)"

definition PopBack :: "'a Vector \<Rightarrow> 'a env \<Rightarrow> (unit, 'a Vector \<times> 'a env) outcome" where
  "PopBack v e =
     (if m_size v = 0 then Returns () (v, e)
      else
        (case destroy_at (m_buffer (m_data v)) (m_size v - 1) of
           None \<Rightarrow> Undefined
         | Some buf \<Rightarrow> Returns () ((set_buffer v buf)\<lparr>m_size := m_size v - 1\<rparr>, e)))"

text \<open>
  \<^verbatim>\<open>Emplace(pos, args...)\<close>.  The two \<^verbatim>\<open>try\<close> blocks of the growing branch are the two
  \<open>Throws\<close> cases that clean up before the exception goes on.  In the other branch
  \<^verbatim>\<open>T tmp(args...)\<close> is one construction and \<^verbatim>\<open>new (data_ + idx) T(std::move(tmp))\<close> a move
  construction.
\<close>

definition placement_new_move ::
  "'a elem_type \<Rightarrow> 'a option list \<Rightarrow> nat \<Rightarrow> 'a \<Rightarrow> 'a env \<Rightarrow> (unit, 'a option list \<times> 'a env) outcome" where
  "placement_new_move et buf i x e =
     (if length buf \<le> i then Undefined
      else if \<not> is_nothrow_move_constructible et \<and> throws et (ctr e) then Throws (buf, tick e)
      else Returns () (buf[i := Some x], tick e))"

definition Emplace_grow ::
  "'a elem_type \<Rightarrow> nat \<Rightarrow> 'a \<Rightarrow> 'a Vector \<Rightarrow> 'a env \<Rightarrow> (unit, 'a Vector \<times> 'a env) outcome" where
  "Emplace_grow et idx x v e =
     (let new_data = RawMemory_new (if m_size v = 0 then 1 else size_t_mul (m_size v) 2) in
      case RawMemory_plus new_data idx of
        None \<Rightarrow> Undefined
      | Some p \<Rightarrow>
      (case placement_new et (m_buffer new_data) p x e of
         Undefined \<Rightarrow> Undefined
       | Throws (nb, e1) \<Rightarrow> Throws (v, RawMemory_dtor (new_data\<lparr>m_buffer := nb\<rparr>) e1)
       | Returns _ (nb, e1) \<Rightarrow>
       (case CopyTo et v (new_data\<lparr>m_buffer := nb\<rparr>) 0 idx 0 e1 of
          Undefined \<Rightarrow> Undefined
        | Throws (v1, nd1, e2) \<Rightarrow>
            (case RawMemory_plus nd1 idx of
               None \<Rightarrow> Undefined
             | Some q \<Rightarrow>
                 (case destroy_at (m_buffer nd1) q of
                    None \<Rightarrow> Undefined
                  | Some nb1 \<Rightarrow> Throws (v1, RawMemory_dtor (nd1\<lparr>m_buffer := nb1\<rparr>) e2)))
        | Returns _ (v1, nd1, e2) \<Rightarrow>
        (case CopyTo et v1 nd1 idx (m_size v1) (idx + 1) e2 of
           Undefined \<Rightarrow> Undefined
         | Throws (v2, nd2, e3) \<Rightarrow>
             (case destroy_n (m_buffer nd2) 0 (idx + 1) of
                None \<Rightarrow> Undefined
              | Some nb2 \<Rightarrow> Throws (v2, RawMemory_dtor (nd2\<lparr>m_buffer := nb2\<rparr>) e3))
         | Returns _ (v2, nd2, e3) \<Rightarrow>
         (case destroy_n (m_buffer (m_data v2)) 0 (m_size v2) of
            None \<Rightarrow> Undefined
          | Some buf \<Rightarrow>
              (let (d, nd3) = RawMemory_Swap ((m_data v2)\<lparr>m_buffer := buf\<rparr>) nd2
               in Returns () (v2\<lparr>m_data := d\<rparr>, RawMemory_dtor nd3 e3)))))))"

definition Emplace_in_place ::
  "'a elem_type \<Rightarrow> nat \<Rightarrow> 'a \<Rightarrow> 'a Vector \<Rightarrow> 'a env \<Rightarrow> (unit, 'a Vector \<times> 'a env) outcome" where
  "Emplace_in_place et idx x v e =
     (if throws et (ctr e) then Throws (v, tick e)
      else
        (case move_backward et (m_buffer (m_data v)) idx (m_size v) (m_size v + 1) (tick e) of
           Undefined \<Rightarrow> Undefined
         | Throws (buf, e1) \<Rightarrow> Throws (set_buffer v buf, e1)
         | Returns _ (buf, e1) \<Rightarrow>
             (case RawMemory_plus (m_data v) idx of
                None \<Rightarrow> Undefined
              | Some p \<Rightarrow>
                  (case placement_new_move et buf p x e1 of
                     Undefined \<Rightarrow> Undefined
                   | Throws (buf', e2) \<Rightarrow> Throws (set_buffer v buf', e2)
                   | Returns _ (buf', e2) \<Rightarrow> Returns () (set_buffer v buf', e2)))))"

definition Emplace ::
  "'a elem_type \<Rightarrow> int \<Rightarrow> 'a \<Rightarrow> 'a Vector \<Rightarrow> 'a env \<Rightarrow> (int, 'a Vector \<times> 'a env) outcome" where
  "Emplace et pos x v e =
     (if Vector_begin v \<le> pos \<and> pos \<le> Vector_end v then
        (let idx = nat (pos - Vector_begin v) in
         case (if m_size v = m_capacity (m_data v) then Emplace_grow et idx x v e
               else Emplace_in_place et idx x v e) of
           Undefined \<Rightarrow> Undefined
         | Throws s \<Rightarrow> Throws s
         | Returns _ (v1, e1) \<Rightarrow>
             (let v2 = v1\<lparr>m_size := size_t_inc (m_size v1)\<rparr>
              in Returns (Vector_begin v2 + int idx) (v2, e1)))
      else Returns (Vector_end v) (v, e))"

definition Insert ::
  "'a elem_type \<Rightarrow> int \<Rightarrow> 'a \<Rightarrow> 'a Vector \<Rightarrow> 'a env \<Rightarrow> (int, 'a Vector \<times> 'a env) outcome" where
  "Insert et pos val v e = Emplace et pos val v e"

definition Erase ::
  "'a elem_type \<Rightarrow> int \<Rightarrow> 'a Vector \<Rightarrow> 'a env \<Rightarrow> (int, 'a Vector \<times> 'a env) outcome" where
  "Erase et pos v e =
     (if Vector_begin v \<le> pos \<and> pos \<le> Vector_end v then
        (let idx = nat (pos - Vector_begin v) in
         case RawMemory_plus (m_data v) idx of
           None \<Rightarrow> Undefined
         | Some p \<Rightarrow>
             (case destroy_at (m_buffer (m_data v)) p of
                None \<Rightarrow> Undefined
              | Some buf \<Rightarrow>
                  (case std_move et buf (idx + 1) (m_size v) idx e of
                     Undefined \<Rightarrow> Undefined
                   | Throws (buf', e1) \<Rightarrow> Throws (set_buffer v buf', e1)
                   | Returns _ (buf', e1) \<Rightarrow>
                       (let v1 = (set_buffer v buf')\<lparr>m_size := size_t_dec (m_size v)\<rparr>
                        in Returns (Vector_begin v1 + int idx) (v1, e1)))))
      else Returns (Vector_end v) (v, e))"

text \<open>\<^verbatim>\<open>CopyFrom(rhs)\<close>, called with \<^verbatim>\<open>rhs\<close> a different object.\<close>

definition CopyFrom ::
  "'a elem_type \<Rightarrow> 'a Vector \<Rightarrow> 'a Vector \<Rightarrow> 'a env \<Rightarrow> (unit, 'a Vector \<times> 'a env) outcome" where
  "CopyFrom et v rhs e =
     (let cp_size = min (m_size v) (m_size rhs) in
      case copy_n et (m_buffer (m_data rhs)) 0 cp_size (m_buffer (m_data v)) 0 e of
        Undefined \<Rightarrow> Undefined
      | Throws (buf, e1) \<Rightarrow> Throws (set_buffer v buf, e1)
      | Returns it (buf, e1) \<Rightarrow>
          (if m_size rhs < m_size v then
             (case destroy_n buf it (m_size v - cp_size) of
                None \<Rightarrow> Undefined
              | Some buf' \<Rightarrow> Returns () ((set_buffer v buf')\<lparr>m_size := m_size rhs\<rparr>, e1))
           else
             (case uninitialized_copy_n et (m_buffer (m_data rhs)) cp_size (m_size rhs - cp_size)
                     buf it e1 of
                Undefined \<Rightarrow> Undefined
              | Throws (buf', e2) \<Rightarrow> Throws (set_buffer v buf', e2)
              | Returns _ (buf', e2) \<Rightarrow>
                  Returns () ((set_buffer v buf')\<lparr>m_size := m_size rhs\<rparr>, e2))))"

section \<open>Operations on two objects\<close>

text \<open>
  The assignment operators and \<^verbatim>\<open>Swap\<close> take a second vector by reference, which may be
  the object itself.  Objects live in a store, at addresses; \<^verbatim>\<open>this\<close> and \<^verbatim>\<open>&rhs\<close> are
  addresses.
\<close>

type_synonym 'a store = "nat \<Rightarrow> 'a Vector"

definition Swap_at :: "nat \<Rightarrow> nat \<Rightarrow> 'a store \<Rightarrow> 'a env \<Rightarrow> (unit, 'a store \<times> 'a env) outcome" where
  "Swap_at this other \<sigma> e =
     (let (v, ov) = Swap (\<sigma> this) (\<sigma> other) in Returns () ((\<sigma>(other := ov))(this := v), e))"

definition copy_assign ::
  "'a elem_type \<Rightarrow> nat \<Rightarrow> nat \<Rightarrow> 'a store \<Rightarrow> 'a env \<Rightarrow> (unit, 'a store \<times> 'a env) outcome" where
  "copy_assign et this rhs \<sigma> e =
     (if this \<noteq> rhs then
        (if m_capacity (m_data (\<sigma> this)) < m_size (\<sigma> rhs) then
           (case Vector_copy et (\<sigma> rhs) e of
              Undefined \<Rightarrow> Undefined
            | Throws e1 \<Rightarrow> Throws (\<sigma>, e1)
            | Returns rhs_copy e1 \<Rightarrow>
                (let (v, rhs_copy') = Swap (\<sigma> this) rhs_copy in
                 case Vector_dtor rhs_copy' e1 of
                   None \<Rightarrow> Undefined
                 | Some e2 \<Rightarrow> Returns () (\<sigma>(this := v), e2)))
         else
           (case CopyFrom et (\<sigma> this) (\<sigma> rhs) e of
              Undefined \<Rightarrow> Undefined
            | Throws (v, e1) \<Rightarrow> Throws (\<sigma>(this := v), e1)
            | Returns _ (v, e1) \<Rightarrow> Returns () (\<sigma>(this := v), e1)))
      else Returns () (\<sigma>, e))"

definition move_assign ::
  "nat \<Rightarrow> nat \<Rightarrow> 'a store \<Rightarrow> 'a env \<Rightarrow> (unit, 'a store \<times> 'a env) outcome" where
  "move_assign this rhs \<sigma> e =
     (if this \<noteq> rhs then Swap_at this rhs \<sigma> e else Returns () (\<sigma>, e))"

section \<open>The invariant, the stored sequence and sequences of calls\<close>

text \<open>
  The invariant of a vector: the block has \<open>m_capacity\<close> slots, \<open>m_size\<close> does not exceed
  the capacity, and every slot below \<open>m_size\<close> holds a live object.  The stored sequence is
  the list of the slots below \<open>m_size\<close>.
\<close>

definition Vector_inv :: "'a Vector \<Rightarrow> bool" where
  "Vector_inv v =
     (m_capacity (m_data v) = length (m_buffer (m_data v)) \<and>
      m_size v \<le> m_capacity (m_data v) \<and>
      list_all (\<lambda>s. s \<noteq> None) (take (m_size v) (m_buffer (m_data v))))"

definition elems :: "'a Vector \<Rightarrow> 'a option list" where
  "elems v = take (m_size v) (m_buffer (m_data v))"

text \<open>Calls in sequence: the next call runs on the state the previous one returned.\<close>

fun and_then :: "('r, 's) outcome \<Rightarrow> ('s \<Rightarrow> ('q, 's) outcome) \<Rightarrow> ('q, 's) outcome" where
  "and_then (Returns r s) f = f s"
| "and_then (Throws s) f = Throws s"
| "and_then Undefined f = Undefined"

fun PushBack_all ::
  "'a elem_type \<Rightarrow> 'a list \<Rightarrow> 'a Vector \<Rightarrow> 'a env \<Rightarrow> (unit, 'a Vector \<times> 'a env) outcome" where
  "PushBack_all et [] v e = Returns () (v, e)"
| "PushBack_all et (x # xs) v e =
     (case PushBack et x v e of
        Undefined \<Rightarrow> Undefined
      | Throws s \<Rightarrow> Throws s
      | Returns _ (v', e') \<Rightarrow> PushBack_all et xs v' e')"

text \<open>
  Element types for the examples: \<^verbatim>\<open>int\<close>; a copyable type whose move constructor may
  throw, so that it is relocated by copy, with the events given by \<open>f\<close> throwing; and a
  type that cannot be copied and whose move constructor may throw.  A moved-from object of
  the last two holds \<open>- 1\<close>.
\<close>

definition int_elem :: "int elem_type" where
  "int_elem = \<lparr>throws = (\<lambda>_. False), is_nothrow_move_constructible = True,
     is_copy_constructible = True, value_init = 0, moved_from = (\<lambda>x. x)\<rparr>"

definition copy_elem :: "(nat \<Rightarrow> bool) \<Rightarrow> int elem_type" where
  "copy_elem f = \<lparr>throws = f, is_nothrow_move_constructible = False,
     is_copy_constructible = True, value_init = 0, moved_from = (\<lambda>x. - 1)\<rparr>"

definition move_only_elem :: "(nat \<Rightarrow> bool) \<Rightarrow> int elem_type" where
  "move_only_elem f = \<lparr>throws = f, is_nothrow_move_constructible = False,
     is_copy_constructible = False, value_init = 0, moved_from = (\<lambda>x. - 1)\<rparr>"

definition env0 :: "'a env" where
  "env0 = \<lparr>ctr = 0, freed = []\<rparr>"

definition vector_of :: "'a list \<Rightarrow> nat \<Rightarrow> 'a Vector" where
  "vector_of xs spare =
     \<lparr>m_data = \<lparr>m_buffer = map Some xs @ replicate spare None,
                 m_capacity = length xs + spare\<rparr>,
      m_size = length xs\<rparr>"

text \<open>
  The capacities reached by appending to an empty vector: \<open>0\<close> while it is empty, then a
  power of two more than half of which is in use.
\<close>

definition growth_inv :: "'a Vector \<Rightarrow> bool" where
  "growth_inv v =
     ((m_size v = 0 \<and> Capacity v = 0) \<or>
      (\<exists>m. Capacity v = 2 ^ m \<and> (m = 0 \<or> 2 ^ (m - 1) < m_size v)))"

text \<open>A store with one vector at the address \<open>10\<close> and another at the address \<open>20\<close>.\<close>

definition store_of :: "'a Vector \<Rightarrow> 'a Vector \<Rightarrow> 'a store" where
  "store_of a b = (\<lambda>p. if p = 10 then a else if p = 20 then b else Vector_default)"

section \<open>The algorithms when no element operation throws\<close>

lemma destroy_n_eq:
  "first + n \<le> length buf \<Longrightarrow>
   destroy_n buf first n = Some (take first buf @ replicate n None @ drop (first + n) buf)"
proof (induction n arbitrary: buf first)
  case 0
  then show ?case by simp
next
  case (Suc n)
  then show ?case
    by (simp add: destroy_at_def take_Suc_conv_app_nth replicate_append_same)
qed

lemma uvc_loop_eq:
  assumes nt: "\<And>k. \<not> throws et k"
  shows "cur + n \<le> length buf \<Longrightarrow>
   uninitialized_value_construct_loop et buf first cur n e =
     Returns (cur + n) (take cur buf @ replicate n (Some (value_init et)) @ drop (cur + n) buf,
                        e\<lparr>ctr := ctr e + n\<rparr>)"
proof (induction n arbitrary: buf cur e)
  case 0
  then show ?case by simp
next
  case (Suc n)
  then show ?case
    by (simp add: nt tick_def take_Suc_conv_app_nth replicate_append_same)
qed

lemma ucopy_loop_eq:
  assumes nt: "\<And>k. \<not> throws et k"
  shows "first + n \<le> length src \<Longrightarrow> list_all (\<lambda>s. s \<noteq> None) (take n (drop first src)) \<Longrightarrow>
   cur + n \<le> length dst \<Longrightarrow>
   uninitialized_copy_loop et src first n dst d_first cur e =
     Returns (cur + n) (take cur dst @ take n (drop first src) @ drop (cur + n) dst,
                        e\<lparr>ctr := ctr e + n\<rparr>)"
proof (induction n arbitrary: first dst cur e)
  case 0
  then show ?case by simp
next
  case (Suc n)
  then show ?case
    by (auto simp add: nt tick_def read_slot_def take_Suc_conv_app_nth
        Cons_nth_drop_Suc[symmetric] split: option.splits)
qed


lemma umove_loop_eq:
  assumes nt: "\<And>k. \<not> throws et k"
  shows "first + n \<le> length src \<Longrightarrow> list_all (\<lambda>s. s \<noteq> None) (take n (drop first src)) \<Longrightarrow>
   cur + n \<le> length dst \<Longrightarrow>
   uninitialized_move_loop et src first n dst d_first cur e =
     Returns (cur + n)
       (take first src @ map (map_option (moved_from et)) (take n (drop first src)) @ drop (first + n) src,
        take cur dst @ take n (drop first src) @ drop (cur + n) dst,
        e\<lparr>ctr := ctr e + n\<rparr>)"
proof (induction n arbitrary: first src dst cur e)
  case 0
  then show ?case by simp
next
  case (Suc n)
  then show ?case
    by (auto simp add: nt tick_def read_slot_def take_Suc_conv_app_nth
        Cons_nth_drop_Suc[symmetric] split: option.splits)
qed

lemma copy_n_eq:
  assumes nt: "\<And>k. \<not> throws et k"
  shows "first + n \<le> length src \<Longrightarrow> list_all (\<lambda>s. s \<noteq> None) (take n (drop first src)) \<Longrightarrow>
   d_first + n \<le> length dst \<Longrightarrow>
   copy_n et src first n dst d_first e =
     Returns (d_first + n) (take d_first dst @ take n (drop first src) @ drop (d_first + n) dst,
                        e\<lparr>ctr := ctr e + n\<rparr>)"
proof (induction n arbitrary: first dst d_first e)
  case 0
  then show ?case by simp
next
  case (Suc n)
  then show ?case
    by (auto simp add: nt tick_def read_slot_def take_Suc_conv_app_nth
        Cons_nth_drop_Suc[symmetric] split: option.splits)
qed

lemma std_move_loop_eq:
  assumes nt: "\<And>k. \<not> throws et k"
  shows "Suc d + Suc n \<le> length buf \<Longrightarrow> list_all (\<lambda>s. s \<noteq> None) (take (Suc n) (drop (Suc d) buf)) \<Longrightarrow>
   std_move_loop et buf (Suc d) (Suc n) d e =
     Returns (d + Suc n)
       (take d buf @ take (Suc n) (drop (Suc d) buf) @
          [map_option (moved_from et) (buf ! (d + Suc n))] @ drop (Suc d + Suc n) buf,
        e\<lparr>ctr := ctr e + Suc n\<rparr>)"
proof (induction n arbitrary: d buf e)
  case 0
  then show ?case 
    by (auto simp add: nt tick_def read_slot_def take_Suc_conv_app_nth upd_conv_take_nth_drop
        Cons_nth_drop_Suc[symmetric] split: option.splits)
next
  case (Suc n)
  from Suc.prems obtain y where y: "buf ! Suc d = Some y"
    by (auto simp: Cons_nth_drop_Suc[symmetric])
  let ?buf1 = "buf[d := Some y, Suc d := Some (moved_from et y)]"
  have step: "std_move_loop et buf (Suc d) (Suc (Suc n)) d e =
              std_move_loop et ?buf1 (Suc (Suc d)) (Suc n) (Suc d) (tick e)"
    using Suc.prems y
    by (subst std_move_loop.simps) (simp add: nt read_slot_def del: std_move_loop.simps)
  have pre1: "Suc (Suc d) + Suc n \<le> length ?buf1"
    using Suc.prems by simp
  have pre2: "list_all (\<lambda>s. s \<noteq> None) (take (Suc n) (drop (Suc (Suc d)) ?buf1))"
    using Suc.prems by (simp add: Cons_nth_drop_Suc[symmetric])
  note IH = Suc.IH[OF pre1 pre2, of "tick e"]
  show ?case
    unfolding step IH using Suc.prems y
    by (simp add: tick_def take_Suc_conv_app_nth Cons_nth_drop_Suc[symmetric])
qed

lemma move_backward_loop_eq:
  assumes nt: "\<And>k. \<not> throws et k"
  shows "first + Suc n < length buf \<Longrightarrow>
   list_all (\<lambda>s. s \<noteq> None) (take (Suc n) (drop first buf)) \<Longrightarrow>
   move_backward_loop et buf (Suc n) (first + Suc n) (Suc (first + Suc n)) e =
     Returns (Suc first)
       (take first buf @ [map_option (moved_from et) (buf ! first)] @
          take (Suc n) (drop first buf) @ drop (Suc (first + Suc n)) buf,
        e\<lparr>ctr := ctr e + Suc n\<rparr>)"
proof (induction n arbitrary: buf e)
  case 0
  then show ?case 
    by (auto simp add: nt tick_def read_slot_def take_Suc_conv_app_nth upd_conv_take_nth_drop
        Cons_nth_drop_Suc[symmetric] split: option.splits)
next
  case (Suc n)
  from Suc.prems have "list_all (\<lambda>s. s \<noteq> None) (take (Suc n) (drop first buf) @ [buf ! (first + Suc n)])"
    by (simp add: take_Suc_conv_app_nth[of "Suc n"])
  then obtain y where y: "buf ! (first + Suc n) = Some y"
    and pre2': "list_all (\<lambda>s. s \<noteq> None) (take (Suc n) (drop first buf))"
    by auto
  let ?buf1 = "buf[Suc (first + Suc n) := Some y, first + Suc n := Some (moved_from et y)]"
  have step: "move_backward_loop et buf (Suc (Suc n)) (first + Suc (Suc n)) (Suc (first + Suc (Suc n))) e =
              move_backward_loop et ?buf1 (Suc n) (first + Suc n) (Suc (first + Suc n)) (tick e)"
    using Suc.prems y
    by (subst move_backward_loop.simps) (simp add: nt read_slot_def del: move_backward_loop.simps)
  have pre1: "first + Suc n < length ?buf1"
    using Suc.prems by simp
  have pre2: "list_all (\<lambda>s. s \<noteq> None) (take (Suc n) (drop first ?buf1))"
    using pre2' by (simp add: drop_update_swap)
  note IH = Suc.IH[OF pre1 pre2, of "tick e"]
  have a: "take (Suc n) (drop first ?buf1) = take (Suc n) (drop first buf)"
    by (simp add: drop_update_swap)
  have b: "drop (Suc (first + Suc n)) ?buf1 = Some y # drop (Suc (Suc (first + Suc n))) buf"
    using Suc.prems by (simp add: upd_conv_take_nth_drop[of "Suc (Suc (first + n))" buf])
  have c: "take (Suc (Suc n)) (drop first buf) = take (Suc n) (drop first buf) @ [Some y]"
    using Suc.prems y by (simp add: take_Suc_conv_app_nth[of "Suc n"])
  show ?case
    unfolding step IH a b c by (simp add: tick_def)
qed


lemma list_all_take_drop:
  "list_all P (take n xs) \<Longrightarrow> from + k \<le> n \<Longrightarrow> list_all P (take k (drop from xs))"
  by (auto simp: list_all_length)

lemma CopyTo_eq:
  assumes nt: "\<And>k. \<not> throws et k"
    and inv: "Vector_inv v"
    and rng: "from \<le> to" "to \<le> m_size v"
    and dst: "pos + (to - from) \<le> length (m_buffer nd)"
  shows "CopyTo et v nd from to pos e =
     Returns ()
       (if is_nothrow_move_constructible et \<or> \<not> is_copy_constructible et
        then set_buffer v (take from (m_buffer (m_data v)) @
               map (map_option (moved_from et)) (take (to - from) (drop from (m_buffer (m_data v)))) @
               drop to (m_buffer (m_data v)))
        else v,
        nd\<lparr>m_buffer := take pos (m_buffer nd) @ take (to - from) (drop from (m_buffer (m_data v))) @
               drop (pos + (to - from)) (m_buffer nd)\<rparr>,
        e\<lparr>ctr := ctr e + (to - from)\<rparr>)"
proof -
  have live: "list_all (\<lambda>s. s \<noteq> None) (take (to - from) (drop from (m_buffer (m_data v))))"
    using inv rng by (intro list_all_take_drop[where n = "m_size v"]) (auto simp: Vector_inv_def)
  have len: "from + (to - from) \<le> length (m_buffer (m_data v))"
    using inv rng by (auto simp: Vector_inv_def)
  show ?thesis
    using rng
    by (simp add: CopyTo_def uninitialized_move_n_def uninitialized_copy_n_def
        umove_loop_eq[OF nt len live dst] ucopy_loop_eq[OF nt len live dst])
qed

lemma SwapCopy_eq:
  assumes nt: "\<And>k. \<not> throws et k"
    and inv: "Vector_inv v"
    and dst: "m_size v \<le> length (m_buffer nd)"
  shows "SwapCopy et v nd e =
     Returns ()
       (v\<lparr>m_data := nd\<lparr>m_buffer := take (m_size v) (m_buffer (m_data v)) @
                                      drop (m_size v) (m_buffer nd)\<rparr>\<rparr>,
        (m_data v)\<lparr>m_buffer := replicate (m_size v) None @ drop (m_size v) (m_buffer (m_data v))\<rparr>,
        e\<lparr>ctr := ctr e + m_size v\<rparr>)"
proof -
  have len: "m_size v \<le> length (m_buffer (m_data v))"
    using inv by (auto simp: Vector_inv_def)
  show ?thesis
    using dst len
    by (simp add: SwapCopy_def CopyTo_eq[OF nt inv _ _ _] set_buffer_def destroy_n_eq
        RawMemory_Swap_def)
qed


lemma Reserve_eq:
  assumes nt: "\<And>k. \<not> throws et k"
    and inv: "Vector_inv v"
    and gt: "m_capacity (m_data v) < new_capacity"
  shows "Reserve et new_capacity v e =
     Returns ()
       (v\<lparr>m_data := \<lparr>m_buffer = take (m_size v) (m_buffer (m_data v)) @
                                  replicate (new_capacity - m_size v) None,
                      m_capacity = new_capacity\<rparr>\<rparr>,
        e\<lparr>ctr := ctr e + m_size v,
          freed := freed e @ [replicate (m_size v) None @ drop (m_size v) (m_buffer (m_data v))]\<rparr>)"
proof -
  have dst: "m_size v \<le> length (m_buffer (RawMemory_new new_capacity :: 'a RawMemory))"
    using inv gt by (auto simp: Vector_inv_def RawMemory_new_def Allocate_def)
  show ?thesis
    using gt inv
    apply (simp add: Reserve_def SwapCopy_eq[OF nt inv dst])
    apply (simp add: RawMemory_dtor_def Deallocate_def RawMemory_new_def Allocate_def Vector_inv_def)
    done
qed

lemma EmplaceBack_grow_eq:
  assumes nt: "\<And>k. \<not> throws et k"
    and inv: "Vector_inv v"
    and full: "m_size v = Capacity v"
    and small: "m_size v < 2 ^ 63"
  shows "EmplaceBack et x v e =
     Returns (m_size v)
       (v\<lparr>m_data := \<lparr>m_buffer = m_buffer (m_data v) @ Some x #
                                 replicate (max 1 (2 * m_size v) - Suc (m_size v)) None,
                      m_capacity = max 1 (2 * m_size v)\<rparr>,
          m_size := Suc (m_size v)\<rparr>,
        e\<lparr>ctr := Suc (ctr e + m_size v),
          freed := freed e @ [replicate (m_size v) None]\<rparr>)"
proof -
  define c where "c = max 1 (2 * m_size v)"
  have c: "(if m_size v = 0 then 1 else size_t_mul (m_size v) 2) = c"
    using small by (auto simp: size_t_mul_def c_def)
  have c_gt: "m_size v < c"
    by (auto simp: c_def)
  have lenB: "length (m_buffer (m_data v)) = m_size v"
    using inv full by (auto simp: Vector_inv_def Capacity_def)
  define nd :: "'a RawMemory" where "nd = \<lparr>m_buffer = (replicate c None)[m_size v := Some x], m_capacity = c\<rparr>"
  have new: "RawMemory_new c = \<lparr>m_buffer = replicate c None, m_capacity = c\<rparr>"
    using c_gt by (simp add: RawMemory_new_def Allocate_def)
  have dst: "m_size v \<le> length (m_buffer nd)"
    using c_gt by (simp add: nd_def)
  have inc: "size_t_inc (m_size v) = Suc (m_size v)"
    using small by (simp add: size_t_inc_def)
  have pn: "placement_new et (replicate c None) (m_size v) x e =
      Returns () ((replicate c None)[m_size v := Some x], tick e)"
    using c_gt by (simp add: placement_new_def nt)
  have dr: "drop (m_size v) ((replicate c None)[m_size v := Some x]) =
      Some x # replicate (c - Suc (m_size v)) None"
    using c_gt by (simp add: upd_conv_take_nth_drop)
  have sc: "SwapCopy et v nd (tick e) =
     Returns ()
       (v\<lparr>m_data := nd\<lparr>m_buffer := take (m_size v) (m_buffer (m_data v)) @
                                      drop (m_size v) (m_buffer nd)\<rparr>\<rparr>,
        (m_data v)\<lparr>m_buffer := replicate (m_size v) None @ drop (m_size v) (m_buffer (m_data v))\<rparr>,
        (tick e)\<lparr>ctr := ctr (tick e) + m_size v\<rparr>)"
    by (rule SwapCopy_eq[OF nt inv dst])
  have full': "Capacity v = m_size v" "m_capacity (m_data v) = m_size v"
    using full by (simp_all add: Capacity_def)
  show ?thesis
    unfolding EmplaceBack_def c Let_def new
    using c_gt
    apply (simp add: full' lenB RawMemory_plus_def pn sc[unfolded nd_def])
    apply (simp add: RawMemory_dtor_def Deallocate_def inc RawMemory_index_def tick_def dr
        full' lenB)
    apply (simp add: c_def)
    done
qed

lemma EmplaceBack_in_place_eq:
  assumes nt: "\<And>k. \<not> throws et k"
    and inv: "Vector_inv v"
    and spare: "m_size v \<noteq> Capacity v"
    and small: "m_size v < 2 ^ 63"
  shows "EmplaceBack et x v e =
     Returns (m_size v)
       ((set_buffer v ((m_buffer (m_data v))[m_size v := Some x]))\<lparr>m_size := Suc (m_size v)\<rparr>,
        tick e)"
proof -
  have inc: "size_t_inc (m_size v) = Suc (m_size v)"
    using small by (simp add: size_t_inc_def)
  show ?thesis
    using inv spare
    by (auto simp add: EmplaceBack_def Let_def RawMemory_plus_def placement_new_def nt inc
        RawMemory_index_def Vector_inv_def Capacity_def set_buffer_def)
qed


lemma EmplaceBack_props:
  assumes nt: "\<And>k. \<not> throws et k"
    and inv: "Vector_inv v"
    and small: "m_size v < 2 ^ 63"
  shows "\<exists>v' e'. EmplaceBack et x v e = Returns (m_size v) (v', e') \<and> Vector_inv v' \<and>
           m_size v' = Suc (m_size v) \<and> elems v' = elems v @ [Some x] \<and>
           Capacity v' = (if m_size v = Capacity v then max 1 (2 * m_size v) else Capacity v)"
proof (cases "m_size v = Capacity v")
  case True
  have lenB: "length (m_buffer (m_data v)) = m_size v"
    using inv True by (auto simp: Vector_inv_def Capacity_def)
  show ?thesis
    using inv True lenB
    by (simp add: EmplaceBack_grow_eq[OF nt inv True small] Vector_inv_def elems_def Capacity_def
          max_def)
next
  case False
  have lt: "m_size v < length (m_buffer (m_data v))"
    using inv False by (auto simp: Vector_inv_def Capacity_def)
  show ?thesis
    using inv False lt
    by (simp add: EmplaceBack_in_place_eq[OF nt inv False small] Vector_inv_def elems_def
          Capacity_def set_buffer_def take_Suc_conv_app_nth)
qed

lemma growth_inv_step:
  assumes "growth_inv v" "Vector_inv v" "m_size v' = Suc (m_size v)"
    "Capacity v' = (if m_size v = Capacity v then max 1 (2 * m_size v) else Capacity v)"
  shows "growth_inv v'"
proof (cases "m_size v = Capacity v")
  case True
  show ?thesis
  proof (cases "m_size v = 0")
    case True
    with assms \<open>m_size v = Capacity v\<close> have "Capacity v' = 2 ^ 0" by simp
    then show ?thesis unfolding growth_inv_def by blast
  next
    case False
    with assms(1) obtain m where m: "Capacity v = 2 ^ m"
      by (auto simp: growth_inv_def)
    have "Capacity v' = 2 ^ Suc m" "2 ^ (Suc m - 1) < m_size v'"
      using assms(3,4) True m False by auto
    then show ?thesis unfolding growth_inv_def by blast
  qed
next
  case False
  have "m_size v < Capacity v"
    using assms(2) False by (auto simp: Vector_inv_def Capacity_def)
  with assms(1) obtain m where m: "Capacity v = 2 ^ m" "m = 0 \<or> 2 ^ (m - 1) < m_size v"
    by (auto simp: growth_inv_def)
  have "Capacity v' = 2 ^ m" "m = 0 \<or> 2 ^ (m - 1) < m_size v'"
    using assms(3,4) False m by auto
  then show ?thesis unfolding growth_inv_def by blast
qed

lemma PushBack_all_gen:
  assumes nt: "\<And>k. \<not> throws et k"
  shows "Vector_inv v \<Longrightarrow> growth_inv v \<Longrightarrow> m_size v + length xs \<le> 2 ^ 63 \<Longrightarrow>
    \<exists>v' e'. PushBack_all et xs v e = Returns () (v', e') \<and> Vector_inv v' \<and> growth_inv v' \<and>
       m_size v' = m_size v + length xs \<and> elems v' = elems v @ map Some xs"
proof (induction xs arbitrary: v e)
  case Nil
  then show ?case by simp
next
  case (Cons x xs)
  have small: "m_size v < 2 ^ 63" using Cons.prems by simp
  from EmplaceBack_props[OF nt Cons.prems(1) small, of x e]
  obtain v1 e1 where eb: "EmplaceBack et x v e = Returns (m_size v) (v1, e1)"
    and inv1: "Vector_inv v1" and sz1: "m_size v1 = Suc (m_size v)"
    and el1: "elems v1 = elems v @ [Some x]"
    and cap1: "Capacity v1 = (if m_size v = Capacity v then max 1 (2 * m_size v) else Capacity v)"
    by blast
  have g1: "growth_inv v1"
    by (rule growth_inv_step[OF Cons.prems(2) Cons.prems(1) sz1 cap1])
  have b1: "m_size v1 + length xs \<le> 2 ^ 63"
    using Cons.prems sz1 by simp
  from Cons.IH[OF inv1 g1 b1, of e1]
  obtain v' e' where "PushBack_all et xs v1 e1 = Returns () (v', e')" "Vector_inv v'" "growth_inv v'"
    "m_size v' = m_size v1 + length xs" "elems v' = elems v1 @ map Some xs"
    by blast
  then show ?case
    using eb sz1 el1 by (simp add: PushBack_def)
qed

lemma least_pow2:
  assumes "growth_inv v" "Vector_inv v" "0 < m_size v"
  shows "\<exists>m. Capacity v = 2 ^ m \<and> m_size v \<le> 2 ^ m \<and> (\<forall>j. m_size v \<le> 2 ^ j \<longrightarrow> (2::nat) ^ m \<le> 2 ^ j)"
proof -
  from assms obtain m where m: "Capacity v = 2 ^ m" "m = 0 \<or> 2 ^ (m - 1) < m_size v"
    by (auto simp: growth_inv_def)
  have le: "m_size v \<le> 2 ^ m"
    using assms(2) m by (simp add: Vector_inv_def Capacity_def)
  have "(2::nat) ^ m \<le> 2 ^ j" if "m_size v \<le> 2 ^ j" for j
  proof (cases "m = 0")
    case True
    then show ?thesis by simp
  next
    case False
    with m that have "(2::nat) ^ (m - 1) < 2 ^ j" by linarith
    then have "m - 1 < j" by (simp only: power_strict_increasing_iff one_less_numeral_iff semiring_norm)
    then have "m \<le> j" by simp
    then show ?thesis by simp
  qed
  with m le show ?thesis by blast
qed

lemma size_t_dec_eq:
  assumes "0 < n" "n < 2 ^ 64"
  shows "size_t_dec n = n - 1"
proof -
  have "n + 2 ^ 64 - 1 = (n - 1) + 2 ^ 64"
    using assms by simp
  then have "size_t_dec n = ((n - 1) + 2 ^ 64) mod 2 ^ 64"
    by (simp only: size_t_dec_def)
  also have "\<dots> = (n - 1) mod 2 ^ 64"
    by (rule mod_add_self2)
  also have "\<dots> = n - 1"
    using assms by (intro mod_less) simp
  finally show ?thesis .
qed

lemma size_t_inc_eq: "n < 2 ^ 63 \<Longrightarrow> size_t_inc n = Suc n"
  by (simp add: size_t_inc_def)

lemma Erase_eq:
  assumes nt: "\<And>k. \<not> throws et k"
    and inv: "Vector_inv v"
    and idx: "idx < m_size v"
    and small: "m_size v < 2 ^ 64"
  shows "Erase et (int idx) v e =
     Returns (int idx)
       ((set_buffer v
           (take idx (m_buffer (m_data v)) @
            take (m_size v - Suc idx) (drop (Suc idx) (m_buffer (m_data v))) @
            [if Suc idx = m_size v then None
             else map_option (moved_from et) (m_buffer (m_data v) ! (m_size v - 1))] @
            drop (m_size v) (m_buffer (m_data v))))\<lparr>m_size := m_size v - 1\<rparr>,
        e\<lparr>ctr := ctr e + (m_size v - Suc idx)\<rparr>)"
proof -
  let ?B = "m_buffer (m_data v)"
  have len: "m_size v \<le> length ?B" and cap: "m_capacity (m_data v) = length ?B"
    and live: "list_all (\<lambda>s. s \<noteq> None) (take (m_size v) ?B)"
    using inv by (auto simp: Vector_inv_def)
  have dec: "size_t_dec (m_size v) = m_size v - 1"
    using idx small by (simp add: size_t_dec_eq)
  have guard: "Vector_begin v \<le> int idx \<and> int idx \<le> Vector_end v"
    using idx by (simp add: Vector_begin_def Vector_end_def)
  have d: "destroy_at ?B idx = Some (?B[idx := None])"
    using idx len by (simp add: destroy_at_def)
  have plus: "RawMemory_plus (m_data v) idx = Some idx"
    using idx len cap by (simp add: RawMemory_plus_def)
  show ?thesis
  proof (cases "Suc idx = m_size v")
    case True
    have mv: "std_move et (?B[idx := None]) (idx + 1) (m_size v) idx e = Returns idx (?B[idx := None], e)"
      using True by (simp add: std_move_def)
    have upd: "?B[idx := None] = take idx ?B @ [None] @ drop (m_size v) ?B"
      using True len by (simp add: upd_conv_take_nth_drop)
    show ?thesis
      using True guard
      apply (simp add: Erase_def Let_def Vector_begin_def plus d mv dec del: One_nat_def)
      apply (simp add: upd set_buffer_def)
      done
  next
    case False
    then obtain n where n: "m_size v - Suc idx = Suc n"
      using idx by (cases "m_size v - Suc idx") auto
    have l1: "Suc idx + Suc n \<le> length (?B[idx := None])"
      using n len by simp
    have "list_all (\<lambda>s. s \<noteq> None) (take (Suc n) (drop (Suc idx) ?B))"
      using live n by (intro list_all_take_drop[where n = "m_size v"]) auto
    then have l2: "list_all (\<lambda>s. s \<noteq> None) (take (Suc n) (drop (Suc idx) (?B[idx := None])))"
      by simp
    have mv: "std_move et (?B[idx := None]) (idx + 1) (m_size v) idx e =
        std_move_loop et (?B[idx := None]) (Suc idx) (Suc n) idx e"
      using n idx by (simp add: std_move_def)
    have sz: "Suc (idx + n) = m_size v - Suc 0" "Suc (m_size v - Suc 0) = m_size v"
      using n by simp_all
    show ?thesis
      using False guard
      apply (simp add: Erase_def Let_def Vector_begin_def plus d mv dec
         std_move_loop_eq[OF nt l1 l2] del: One_nat_def std_move_loop.simps)
      apply (simp add: n sz set_buffer_def)
      done
  qed
qed


lemma set_buffer_same: "set_buffer v (m_buffer (m_data v)) = v"
  by (simp add: set_buffer_def)

lemma live_moved:
  assumes live: "list_all (\<lambda>s. s \<noteq> None) (take n B)"
    and rng: "from \<le> to" "to \<le> n" "n \<le> length B"
  shows "list_all (\<lambda>s. s \<noteq> None)
           (take n (take from B @ map (map_option f) (take (to - from) (drop from B)) @ drop to B))"
proof -
  have a: "list_all (\<lambda>s. s \<noteq> None) (take from B)"
    using list_all_take_drop[OF live, of 0 "from"] rng by simp
  have b: "list_all (\<lambda>s. s \<noteq> None) (take (to - from) (drop from B))"
    using list_all_take_drop[OF live, of "from" "to - from"] rng by simp
  have c: "list_all (\<lambda>s. s \<noteq> None) (take (n - to) (drop to B))"
    using list_all_take_drop[OF live, of "to" "n - to"] rng by simp
  have b': "list_all (\<lambda>s. s \<noteq> None) (map (map_option f) (take (to - from) (drop from B)))"
    using b by (simp add: list_all_iff)
  show ?thesis
    using a b' c rng by (simp add: min_absorb2)
qed

lemma CopyTo_props:
  assumes nt: "\<And>k. \<not> throws et k"
    and inv: "Vector_inv v"
    and rng: "from \<le> to" "to \<le> m_size v"
    and dst: "pos + (to - from) \<le> length (m_buffer nd)"
  shows "\<exists>buf1. CopyTo et v nd from to pos e =
     Returns ()
       (set_buffer v buf1,
        nd\<lparr>m_buffer := take pos (m_buffer nd) @ take (to - from) (drop from (m_buffer (m_data v))) @
               drop (pos + (to - from)) (m_buffer nd)\<rparr>,
        e\<lparr>ctr := ctr e + (to - from)\<rparr>) \<and>
     Vector_inv (set_buffer v buf1) \<and> length buf1 = length (m_buffer (m_data v)) \<and>
     drop to buf1 = drop to (m_buffer (m_data v))"
proof (cases "is_nothrow_move_constructible et \<or> \<not> is_copy_constructible et")
  case True
  let ?B = "m_buffer (m_data v)"
  let ?buf1 = "take from ?B @ map (map_option (moved_from et)) (take (to - from) (drop from ?B)) @ drop to ?B"
  have len: "m_size v \<le> length ?B" and cap: "m_capacity (m_data v) = length ?B"
    and live: "list_all (\<lambda>s. s \<noteq> None) (take (m_size v) ?B)"
    using inv by (auto simp: Vector_inv_def)
  have l1: "length ?buf1 = length ?B"
    using rng len by simp
  have l2: "drop to ?buf1 = drop to ?B"
    using rng len by simp
  have l3: "Vector_inv (set_buffer v ?buf1)"
    using live_moved[OF live rng len] len cap l1
    by (simp add: Vector_inv_def set_buffer_def)
  show ?thesis
    using True l1 l2 l3 CopyTo_eq[OF nt inv rng dst, of e] by (intro exI[of _ ?buf1]) simp
next
  case False
  show ?thesis
    using False inv CopyTo_eq[OF nt inv rng dst, of e]
    by (intro exI[of _ "m_buffer (m_data v)"]) (simp add: set_buffer_same)
qed


lemma set_buffer_simps:
  "m_size (set_buffer v b) = m_size v"
  "m_buffer (m_data (set_buffer v b)) = b"
  "m_capacity (m_data (set_buffer v b)) = m_capacity (m_data v)"
  "set_buffer (set_buffer v b) b' = set_buffer v b'"
  by (simp_all add: set_buffer_def)

lemma Emplace_grow_eq:
  assumes nt: "\<And>k. \<not> throws et k"
    and inv: "Vector_inv v"
    and full: "m_size v = m_capacity (m_data v)"
    and small: "m_size v < 2 ^ 63"
    and idx: "idx \<le> m_size v"
  shows "Emplace_grow et idx x v e =
     Returns ()
       (v\<lparr>m_data := \<lparr>m_buffer = take idx (m_buffer (m_data v)) @ Some x #
                                  drop idx (m_buffer (m_data v)) @
                                  replicate (max 1 (2 * m_size v) - Suc (m_size v)) None,
                      m_capacity = max 1 (2 * m_size v)\<rparr>\<rparr>,
        e\<lparr>ctr := Suc (ctr e + m_size v), freed := freed e @ [replicate (m_size v) None]\<rparr>)"
proof -
  let ?B = "m_buffer (m_data v)"
  define c where "c = max 1 (2 * m_size v)"
  have c: "(if m_size v = 0 then 1 else size_t_mul (m_size v) 2) = c"
    using small by (auto simp: size_t_mul_def c_def)
  have c_gt: "m_size v < c"
    by (auto simp: c_def)
  have lenB: "length ?B = m_size v"
    using inv full by (auto simp: Vector_inv_def)
  have new: "RawMemory_new c = \<lparr>m_buffer = replicate c None, m_capacity = c\<rparr>"
    using c_gt by (simp add: RawMemory_new_def Allocate_def)
  define NB1 where "NB1 = (replicate c (None :: 'a option))[idx := Some x]"
  define NB2 where "NB2 = take idx ?B @ Some x # replicate (c - Suc idx) None"
  define NB3 where "NB3 = take idx ?B @ Some x # drop idx ?B @ replicate (c - Suc (m_size v)) None"
  define e1 where "e1 = tick e"
  define e2 where "e2 = e1\<lparr>ctr := ctr e1 + idx\<rparr>"
  define e3 where "e3 = e2\<lparr>ctr := ctr e2 + (m_size v - idx)\<rparr>"
  have lenNB1: "length NB1 = c"
    by (simp add: NB1_def)
  have lenNB2: "length NB2 = c"
    using idx c_gt lenB by (simp add: NB2_def)
  have plus: "RawMemory_plus \<lparr>m_buffer = replicate c None, m_capacity = c\<rparr> idx = Some idx"
    using idx c_gt by (simp add: RawMemory_plus_def)
  have pn: "placement_new et (replicate c None) idx x e = Returns () (NB1, e1)"
    using idx c_gt by (simp add: placement_new_def nt NB1_def e1_def)
  have d1: "0 + (idx - 0) \<le> length (m_buffer \<lparr>m_buffer = NB1, m_capacity = c\<rparr>)"
    using idx c_gt by (simp add: lenNB1)
  from CopyTo_props[OF nt inv _ idx d1, of e1]
  obtain buf1 where c1: "CopyTo et v \<lparr>m_buffer = NB1, m_capacity = c\<rparr> 0 idx 0 e1 =
       Returns () (set_buffer v buf1, \<lparr>m_buffer = NB2, m_capacity = c\<rparr>, e2)"
    and inv1: "Vector_inv (set_buffer v buf1)" and len1: "length buf1 = m_size v"
    and drop1: "drop idx buf1 = drop idx ?B"
    using idx c_gt lenB
    by (auto simp: NB1_def NB2_def e2_def upd_conv_take_nth_drop)
  have d2: "Suc idx + (m_size v - idx) \<le> length (m_buffer \<lparr>m_buffer = NB2, m_capacity = c\<rparr>)"
    using idx c_gt by (simp add: lenNB2)
  have r2: "idx \<le> m_size v" "m_size v \<le> m_size (set_buffer v buf1)"
    using idx by (simp_all add: set_buffer_simps)
  have dr2: "drop (Suc (m_size v) - idx) (Some x # replicate (c - Suc idx) None) =
      replicate (c - Suc (m_size v)) (None :: 'a option)"
    using idx by (simp add: Suc_diff_le)
  from CopyTo_props[OF nt inv1 r2 d2, of e2]
  obtain buf2 where c2: "CopyTo et (set_buffer v buf1) \<lparr>m_buffer = NB2, m_capacity = c\<rparr> idx (m_size v) (Suc idx) e2 =
       Returns () (set_buffer v buf2, \<lparr>m_buffer = NB3, m_capacity = c\<rparr>, e3)"
    and len2: "length buf2 = m_size v"
    using idx c_gt lenB len1 drop1 dr2
    by (auto simp: NB2_def NB3_def e3_def set_buffer_simps)
  have dn: "destroy_n buf2 0 (m_size v) = Some (replicate (m_size v) None)"
    using len2 by (simp add: destroy_n_eq)
  show ?thesis
    unfolding Emplace_grow_def c Let_def new
    apply (simp add: plus pn c1 c2 dn set_buffer_simps)
    apply (simp add: RawMemory_Swap_def RawMemory_dtor_def Deallocate_def set_buffer_def
        NB3_def e3_def e2_def e1_def tick_def full[symmetric])
    using idx apply (simp add: c_def)
    done
qed


lemma Emplace_in_place_eq:
  assumes nt: "\<And>k. \<not> throws et k"
    and inv: "Vector_inv v"
    and spare: "m_size v \<noteq> m_capacity (m_data v)"
    and idx: "idx \<le> m_size v"
  shows "Emplace_in_place et idx x v e =
     Returns ()
       (set_buffer v (take idx (m_buffer (m_data v)) @ Some x #
                      take (m_size v - idx) (drop idx (m_buffer (m_data v))) @
                      drop (Suc (m_size v)) (m_buffer (m_data v))),
        e\<lparr>ctr := Suc (Suc (ctr e + (m_size v - idx)))\<rparr>)"
proof -
  let ?B = "m_buffer (m_data v)"
  have len: "m_size v < length ?B" and cap: "m_capacity (m_data v) = length ?B"
    and live: "list_all (\<lambda>s. s \<noteq> None) (take (m_size v) ?B)"
    using inv spare by (auto simp: Vector_inv_def)
  have plus: "RawMemory_plus (m_data v) idx = Some idx"
    using idx len cap by (simp add: RawMemory_plus_def)
  show ?thesis
  proof (cases "m_size v - idx")
    case 0
    then have eq: "m_size v = idx"
      using idx by simp
    have mb: "move_backward et ?B idx (m_size v) (m_size v + 1) (tick e) =
        Returns (m_size v + 1) (?B, tick e)"
      by (simp add: move_backward_def eq)
    have pm: "placement_new_move et ?B idx x (tick e) =
        Returns () (take idx ?B @ Some x # drop (Suc idx) ?B, tick (tick e))"
      using len eq by (simp add: placement_new_move_def nt upd_conv_take_nth_drop)
    have "Emplace_in_place et idx x v e =
        Returns () (set_buffer v (take idx ?B @ Some x # drop (Suc idx) ?B), tick (tick e))"
      by (simp add: Emplace_in_place_def nt mb plus pm del: One_nat_def)
    then show ?thesis
      by (simp add: eq tick_def)
  next
    case (Suc n)
    have sz: "m_size v = idx + Suc n"
      using Suc by simp
    have l1: "idx + Suc n < length ?B"
      using len sz by simp
    have l2: "list_all (\<lambda>s. s \<noteq> None) (take (Suc n) (drop idx ?B))"
      using live sz by (intro list_all_take_drop[where n = "m_size v"]) auto
    define buf1 where "buf1 = take idx ?B @ [map_option (moved_from et) (?B ! idx)] @
          take (Suc n) (drop idx ?B) @ drop (Suc (idx + Suc n)) ?B"
    define e1 where "e1 = (tick e)\<lparr>ctr := ctr (tick e) + Suc n\<rparr>"
    have "move_backward et ?B idx (idx + Suc n) (idx + Suc n + 1) (tick e) =
        Returns (Suc idx) (buf1, e1)"
      using move_backward_loop_eq[OF nt l1 l2, of "tick e"]
      by (simp add: move_backward_def buf1_def e1_def del: move_backward_loop.simps)
    then have mb: "move_backward et ?B idx (m_size v) (m_size v + 1) (tick e) =
        Returns (Suc idx) (buf1, e1)"
      by (simp only: sz)
    have lb: "length (take idx ?B) = idx"
      using l1 by simp
    have "buf1[length (take idx ?B) := Some x] =
        take idx ?B @ Some x # take (Suc n) (drop idx ?B) @ drop (Suc (idx + Suc n)) ?B"
      unfolding buf1_def by (simp only: list_update_length append.simps)
    then have upd: "buf1[idx := Some x] =
        take idx ?B @ Some x # take (Suc n) (drop idx ?B) @ drop (Suc (idx + Suc n)) ?B"
      by (simp only: lb)
    have lbuf: "idx < length buf1"
      using l1 by (simp add: buf1_def)
    have pm: "placement_new_move et buf1 idx x e1 = Returns () (buf1[idx := Some x], tick e1)"
      using lbuf by (simp add: placement_new_move_def nt)
    have "Emplace_in_place et idx x v e = Returns () (set_buffer v (buf1[idx := Some x]), tick e1)"
      by (simp add: Emplace_in_place_def nt mb plus pm del: One_nat_def)
    then show ?thesis
      unfolding upd by (simp add: tick_def e1_def sz)
  qed
qed

lemma Emplace_props:
  assumes nt: "\<And>k. \<not> throws et k"
    and inv: "Vector_inv v"
    and small: "m_size v < 2 ^ 63"
    and idx: "idx \<le> m_size v"
  shows "\<exists>v' e'. Emplace et (int idx) x v e = Returns (int idx) (v', e') \<and> Vector_inv v' \<and>
           m_size v' = Suc (m_size v) \<and>
           elems v' = take idx (elems v) @ Some x # drop idx (elems v)"
proof -
  let ?B = "m_buffer (m_data v)"
  have len: "m_size v \<le> length ?B" and cap: "m_capacity (m_data v) = length ?B"
    and live: "list_all (\<lambda>s. s \<noteq> None) (take (m_size v) ?B)"
    using inv by (auto simp: Vector_inv_def)
  have guard: "Vector_begin v \<le> int idx \<and> int idx \<le> Vector_end v"
    using idx by (simp add: Vector_begin_def Vector_end_def)
  have inc: "size_t_inc (m_size v) = Suc (m_size v)"
    using small by (rule size_t_inc_eq)
  have live1: "list_all (\<lambda>s. s \<noteq> None) (take idx ?B)"
    using list_all_take_drop[OF live, of 0 idx] idx by simp
  have live2: "list_all (\<lambda>s. s \<noteq> None) (take (m_size v - idx) (drop idx ?B))"
    using list_all_take_drop[OF live, of idx "m_size v - idx"] idx by simp
  define E where "E = take idx ?B @ Some x # take (m_size v - idx) (drop idx ?B)"
  have lenE: "length E = Suc (m_size v)"
    using idx len by (simp add: E_def)
  have liveE: "list_all (\<lambda>s. s \<noteq> None) E"
    using live1 live2 by (simp add: E_def)
  have target: "take idx (elems v) @ Some x # drop idx (elems v) = E"
    using idx len by (simp add: E_def elems_def min_absorb2 drop_take)
  have "\<exists>rest c e'. (if m_size v = m_capacity (m_data v) then Emplace_grow et idx x v e
                      else Emplace_in_place et idx x v e) =
          Returns () (v\<lparr>m_data := \<lparr>m_buffer = E @ rest, m_capacity = c\<rparr>\<rparr>, e') \<and>
          c = length (E @ rest)"
  proof (cases "m_size v = m_capacity (m_data v)")
    case True
    have lenB: "length ?B = m_size v"
      using True cap by simp
    have t: "take (m_size v - idx) (drop idx ?B) = drop idx ?B"
      using lenB by simp
    define R where "R = replicate (max 1 (2 * m_size v) - Suc (m_size v)) (None :: 'a option)"
    have g: "Emplace_grow et idx x v e =
        Returns () (v\<lparr>m_data := \<lparr>m_buffer = E @ R, m_capacity = max 1 (2 * m_size v)\<rparr>\<rparr>,
          e\<lparr>ctr := Suc (ctr e + m_size v), freed := freed e @ [replicate (m_size v) None]\<rparr>)"
      unfolding Emplace_grow_eq[OF nt inv True small idx] E_def R_def t by simp
    have l: "max 1 (2 * m_size v) = length (E @ R)"
      using lenE by (simp add: R_def max_def)
    show ?thesis
      unfolding if_P[OF True] g using l by blast
  next
    case False
    have lt: "m_size v < length ?B"
      using False len cap by simp
    have g: "Emplace_in_place et idx x v e =
        Returns () (v\<lparr>m_data := \<lparr>m_buffer = E @ drop (Suc (m_size v)) ?B,
                                  m_capacity = m_capacity (m_data v)\<rparr>\<rparr>,
          e\<lparr>ctr := Suc (Suc (ctr e + (m_size v - idx)))\<rparr>)"
      unfolding Emplace_in_place_eq[OF nt inv False idx] E_def by (simp add: set_buffer_def)
    have l: "m_capacity (m_data v) = length (E @ drop (Suc (m_size v)) ?B)"
      using lenE lt cap by simp
    show ?thesis
      unfolding if_not_P[OF False] g using l by blast
  qed
  then obtain rest c e' where
    r: "(if m_size v = m_capacity (m_data v) then Emplace_grow et idx x v e
         else Emplace_in_place et idx x v e) =
          Returns () (v\<lparr>m_data := \<lparr>m_buffer = E @ rest, m_capacity = c\<rparr>\<rparr>, e')"
    and c: "c = length (E @ rest)"
    by blast
  define v' where "v' = v\<lparr>m_data := \<lparr>m_buffer = E @ rest, m_capacity = c\<rparr>, m_size := Suc (m_size v)\<rparr>"
  have run: "Emplace et (int idx) x v e = Returns (int idx) (v', e')"
    using guard by (simp add: Emplace_def Let_def r inc Vector_begin_def v'_def del: One_nat_def)
  have i': "Vector_inv v'"
    using c lenE liveE by (simp add: Vector_inv_def v'_def)
  have s': "m_size v' = Suc (m_size v)"
    by (simp add: v'_def)
  have el': "elems v' = E"
    using lenE by (simp add: elems_def v'_def)
  show ?thesis
    using run i' s' el' target by auto
qed

lemma Erase_props:
  assumes nt: "\<And>k. \<not> throws et k"
    and inv: "Vector_inv v"
    and small: "m_size v < 2 ^ 64"
    and idx: "idx < m_size v"
  shows "\<exists>v' e'. Erase et (int idx) v e = Returns (int idx) (v', e') \<and> Vector_inv v' \<and>
           m_size v' = m_size v - 1 \<and> Capacity v' = Capacity v \<and>
           elems v' = take idx (elems v) @ drop (Suc idx) (elems v)"
proof -
  let ?B = "m_buffer (m_data v)"
  have len: "m_size v \<le> length ?B" and cap: "m_capacity (m_data v) = length ?B"
    and live: "list_all (\<lambda>s. s \<noteq> None) (take (m_size v) ?B)"
    using inv by (auto simp: Vector_inv_def)
  have live1: "list_all (\<lambda>s. s \<noteq> None) (take idx ?B)"
    using list_all_take_drop[OF live, of 0 idx] idx by simp
  have live2: "list_all (\<lambda>s. s \<noteq> None) (take (m_size v - Suc idx) (drop (Suc idx) ?B))"
    using list_all_take_drop[OF live, of "Suc idx" "m_size v - Suc idx"] idx by simp
  define E where "E = take idx ?B @ take (m_size v - Suc idx) (drop (Suc idx) ?B)"
  define rest where "rest = [if Suc idx = m_size v then None
             else map_option (moved_from et) (?B ! (m_size v - 1))] @ drop (m_size v) ?B"
  define v' where "v' = (set_buffer v (E @ rest))\<lparr>m_size := m_size v - 1\<rparr>"
  have lenE: "length E = m_size v - 1"
    using idx len by (simp add: E_def)
  have lenR: "length (E @ rest) = length ?B"
    using idx len by (simp add: E_def rest_def)
  have liveE: "list_all (\<lambda>s. s \<noteq> None) E"
    using live1 live2 by (simp add: E_def)
  have target: "take idx (elems v) @ drop (Suc idx) (elems v) = E"
    using idx len by (simp add: E_def elems_def min_absorb2 drop_take)
  have run: "Erase et (int idx) v e = Returns (int idx) (v', e\<lparr>ctr := ctr e + (m_size v - Suc idx)\<rparr>)"
    unfolding Erase_eq[OF nt inv idx small] v'_def E_def rest_def by simp
  have i': "Vector_inv v'"
    using cap lenE lenR liveE len by (simp add: Vector_inv_def v'_def set_buffer_def)
  have s': "m_size v' = m_size v - 1"
    by (simp add: v'_def)
  have c': "Capacity v' = Capacity v"
    by (simp add: v'_def Capacity_def set_buffer_def)
  have el': "elems v' = E"
    using lenE by (simp add: elems_def v'_def set_buffer_def)
  show ?thesis
    using run i' s' c' el' target by auto
qed

lemma Vector_copy_eq:
  assumes nt: "\<And>k. \<not> throws et k"
    and inv: "Vector_inv other"
  shows "Vector_copy et other e =
     Returns \<lparr>m_data = \<lparr>m_buffer = elems other, m_capacity = m_size other\<rparr>,
               m_size = m_size other\<rparr>
             (e\<lparr>ctr := ctr e + m_size other\<rparr>)"
proof -
  let ?R = "m_buffer (m_data other)"
  have len: "m_size other \<le> length ?R"
    and live: "list_all (\<lambda>s. s \<noteq> None) (take (m_size other) ?R)"
    using inv by (auto simp: Vector_inv_def)
  have new: "RawMemory_new (m_size other) =
      \<lparr>m_buffer = replicate (m_size other) (None :: 'a option), m_capacity = m_size other\<rparr>"
    by (simp add: RawMemory_new_def Allocate_def)
  have l1: "0 + m_size other \<le> length ?R"
    using len by simp
  have l2: "list_all (\<lambda>s. s \<noteq> None) (take (m_size other) (drop 0 ?R))"
    using live by simp
  have l3: "0 + m_size other \<le> length (replicate (m_size other) (None :: 'a option))"
    by simp
  show ?thesis
    unfolding Vector_copy_def new Let_def
    by (simp add: uninitialized_copy_n_def ucopy_loop_eq[OF nt l1 l2 l3] elems_def)
qed

lemma Vector_dtor_eq:
  assumes inv: "Vector_inv v"
  shows "Vector_dtor v e =
     Some (e\<lparr>freed := freed e @ [replicate (m_size v) None @ drop (m_size v) (m_buffer (m_data v))]\<rparr>)"
proof -
  have len: "0 + m_size v \<le> length (m_buffer (m_data v))"
    using inv by (auto simp: Vector_inv_def)
  show ?thesis
    by (simp add: Vector_dtor_def destroy_n_eq[OF len] RawMemory_dtor_def Deallocate_def)
qed

lemma CopyFrom_eq:
  assumes nt: "\<And>k. \<not> throws et k"
    and inv: "Vector_inv v"
    and invr: "Vector_inv rhs"
    and fits: "m_size rhs \<le> m_capacity (m_data v)"
  shows "CopyFrom et v rhs e =
     Returns ()
       ((set_buffer v (elems rhs @ replicate (m_size v - m_size rhs) None @
                       drop (max (m_size v) (m_size rhs)) (m_buffer (m_data v))))
          \<lparr>m_size := m_size rhs\<rparr>,
        e\<lparr>ctr := ctr e + m_size rhs\<rparr>)"
proof -
  let ?B = "m_buffer (m_data v)" and ?R = "m_buffer (m_data rhs)"
  have len: "m_size v \<le> length ?B" and cap: "m_capacity (m_data v) = length ?B"
    using inv by (auto simp: Vector_inv_def)
  have lenr: "m_size rhs \<le> length ?R"
    and liver: "list_all (\<lambda>s. s \<noteq> None) (take (m_size rhs) ?R)"
    using invr by (auto simp: Vector_inv_def)
  define cp where "cp = min (m_size v) (m_size rhs)"
  have cp: "cp \<le> m_size v" "cp \<le> m_size rhs"
    by (simp_all add: cp_def)
  define buf1 where "buf1 = take cp ?R @ drop cp ?B"
  define e1 where "e1 = e\<lparr>ctr := ctr e + cp\<rparr>"
  have l1: "0 + cp \<le> length ?R"
    using cp lenr by simp
  have l2: "list_all (\<lambda>s. s \<noteq> None) (take cp (drop 0 ?R))"
    using list_all_take_drop[OF liver, of 0 cp] cp by simp
  have l3: "0 + cp \<le> length ?B"
    using cp len by simp
  have c1: "copy_n et ?R 0 cp ?B 0 e = Returns cp (buf1, e1)"
    using copy_n_eq[OF nt l1 l2 l3, of e] by (simp add: buf1_def e1_def)
  have lenb1: "length buf1 = length ?B"
    using cp len lenr by (simp add: buf1_def)
  show ?thesis
  proof (cases "m_size rhs < m_size v")
    case True
    have cpr: "cp = m_size rhs"
      using True by (simp add: cp_def)
    have d: "cp + (m_size v - cp) \<le> length buf1"
      using cp len lenb1 by simp
    have res: "take cp buf1 @ replicate (m_size v - cp) None @ drop (cp + (m_size v - cp)) buf1 =
        elems rhs @ replicate (m_size v - m_size rhs) None @ drop (max (m_size v) (m_size rhs)) ?B"
      using True lenr len by (simp add: buf1_def cpr elems_def max_def)
    show ?thesis
      using True
      by (simp add: CopyFrom_def Let_def cp_def[symmetric] c1 destroy_n_eq[OF d] res)
        (simp add: e1_def cpr)
  next
    case False
    have cpv: "cp = m_size v"
      using False by (simp add: cp_def)
    have m1: "cp + (m_size rhs - cp) \<le> length ?R"
      using cp lenr by simp
    have m2: "list_all (\<lambda>s. s \<noteq> None) (take (m_size rhs - cp) (drop cp ?R))"
      using list_all_take_drop[OF liver, of cp "m_size rhs - cp"] cp by simp
    have m3: "cp + (m_size rhs - cp) \<le> length buf1"
      using cp fits cap lenb1 by simp
    have res: "take cp buf1 @ take (m_size rhs - cp) (drop cp ?R) @ drop (cp + (m_size rhs - cp)) buf1 =
        elems rhs @ replicate (m_size v - m_size rhs) None @ drop (max (m_size v) (m_size rhs)) ?B"
      using False lenr len fits cap
      by (simp add: buf1_def cpv elems_def max_def take_add[symmetric])
    show ?thesis
      using False
      by (simp add: CopyFrom_def Let_def cp_def[symmetric] c1 uninitialized_copy_n_def
            ucopy_loop_eq[OF nt m1 m2 m3] res)
        (simp add: e1_def cpv)
  qed
qed


lemma copy_assign_deep:
  assumes nt: "\<And>k. \<not> throws et k"
    and ne: "this \<noteq> rhs"
    and inv: "Vector_inv (\<sigma> this)"
    and invr: "Vector_inv (\<sigma> rhs)"
    and big: "m_capacity (m_data (\<sigma> this)) < m_size (\<sigma> rhs)"
  shows "copy_assign et this rhs \<sigma> e =
     Returns ()
       (\<sigma>(this := (\<sigma> this)\<lparr>m_data := \<lparr>m_buffer = elems (\<sigma> rhs), m_capacity = m_size (\<sigma> rhs)\<rparr>,
                               m_size := m_size (\<sigma> rhs)\<rparr>),
        e\<lparr>ctr := ctr e + m_size (\<sigma> rhs),
          freed := freed e @ [replicate (m_size (\<sigma> this)) None @
                               drop (m_size (\<sigma> this)) (m_buffer (m_data (\<sigma> this)))]\<rparr>)"
proof -
  define c where "c = \<lparr>m_data = \<lparr>m_buffer = elems (\<sigma> rhs), m_capacity = m_size (\<sigma> rhs)\<rparr>,
               m_size = m_size (\<sigma> rhs)\<rparr>"
  define e1 where "e1 = e\<lparr>ctr := ctr e + m_size (\<sigma> rhs)\<rparr>"
  define old where "old = c\<lparr>m_data := m_data (\<sigma> this), m_size := m_size (\<sigma> this)\<rparr>"
  have vc: "Vector_copy et (\<sigma> rhs) e = Returns c e1"
    unfolding c_def e1_def by (rule Vector_copy_eq[OF nt invr])
  have sw: "Swap (\<sigma> this) c =
      ((\<sigma> this)\<lparr>m_data := \<lparr>m_buffer = elems (\<sigma> rhs), m_capacity = m_size (\<sigma> rhs)\<rparr>,
                  m_size := m_size (\<sigma> rhs)\<rparr>, old)"
    by (simp add: Swap_def RawMemory_Swap_def c_def old_def)
  have io: "Vector_inv old"
    using inv by (simp add: Vector_inv_def old_def)
  have dt: "Vector_dtor old e1 =
      Some (e1\<lparr>freed := freed e1 @ [replicate (m_size (\<sigma> this)) None @
                               drop (m_size (\<sigma> this)) (m_buffer (m_data (\<sigma> this)))]\<rparr>)"
    using Vector_dtor_eq[OF io, of e1] by (simp add: old_def)
  show ?thesis
    using ne big by (simp add: copy_assign_def vc sw dt) (simp add: e1_def)
qed

lemma copy_assign_in_place:
  assumes nt: "\<And>k. \<not> throws et k"
    and ne: "this \<noteq> rhs"
    and inv: "Vector_inv (\<sigma> this)"
    and invr: "Vector_inv (\<sigma> rhs)"
    and fits: "m_size (\<sigma> rhs) \<le> m_capacity (m_data (\<sigma> this))"
  shows "copy_assign et this rhs \<sigma> e =
     Returns ()
       (\<sigma>(this := (set_buffer (\<sigma> this)
                      (elems (\<sigma> rhs) @ replicate (m_size (\<sigma> this) - m_size (\<sigma> rhs)) None @
                       drop (max (m_size (\<sigma> this)) (m_size (\<sigma> rhs))) (m_buffer (m_data (\<sigma> this)))))
                   \<lparr>m_size := m_size (\<sigma> rhs)\<rparr>),
        e\<lparr>ctr := ctr e + m_size (\<sigma> rhs)\<rparr>)"
  using ne fits by (simp add: copy_assign_def CopyFrom_eq[OF nt inv invr fits])

lemma copy_assign_deep_throws:
  assumes "this \<noteq> rhs" "m_capacity (m_data (\<sigma> this)) < m_size (\<sigma> rhs)"
    and "copy_assign et this rhs \<sigma> e = Throws (\<sigma>', e')"
  shows "\<sigma>' = \<sigma>"
  using assms
  by (auto simp add: copy_assign_def Let_def split: outcome.splits prod.splits option.splits)

lemma elems_inv:
  assumes "Vector_inv v"
  shows "length (elems v) = m_size v" "list_all (\<lambda>s. s \<noteq> None) (elems v)"
  using assms by (simp_all add: Vector_inv_def elems_def)

section \<open>The claims\<close>

text \<open>
  Claim C1.  \<^verbatim>\<open>Resize(new_size)\<close> with \<open>new_size\<close> above the size is claimed to
  value-construct the slots \<open>[size, new_size)\<close>, so that \<^verbatim>\<open>reserve(0)\<close>, \<^verbatim>\<open>reserve(5)\<close>,
  \<^verbatim>\<open>resize(3)\<close> on an empty vector gives three default elements.  The code passes
  \<^verbatim>\<open>data_.GetAddress() + new_size\<close> to \<^verbatim>\<open>std::uninitialized_value_construct_n\<close> and
  constructs the slots \<open>[new_size, 2 * new_size - size)\<close>: in the scenario it writes slot
  \<open>5\<close> of a block of five slots, and with a block of six slots it returns with size \<open>3\<close>,
  the slots \<open>0, 1, 2\<close> empty and the objects in the slots \<open>3, 4, 5\<close>.
\<close>

theorem Resize_constructs_past_new_size:
  "and_then (and_then (Reserve int_elem 0 Vector_default env0)
       (\<lambda>(v, e). Reserve int_elem 5 v e)) (\<lambda>(v, e). Resize int_elem 3 v e) = Undefined \<and>
   and_then (and_then (Reserve int_elem 0 Vector_default env0)
       (\<lambda>(v, e). Reserve int_elem 6 v e)) (\<lambda>(v, e). Resize int_elem 3 v e) =
     Returns ()
       (\<lparr>m_data = \<lparr>m_buffer = [None, None, None, Some 0, Some 0, Some 0], m_capacity = 6\<rparr>,
         m_size = 3\<rparr>,
        \<lparr>ctr = 3, freed = [[]]\<rparr>)"
  by code_simp

text \<open>
  Claim C3.  \<^verbatim>\<open>Erase(pos)\<close> is claimed to remove an element for every position in
  \<open>[begin, end]\<close>, the position \<open>end\<close> and the empty vector included.  The guard of the code
  accepts \<open>pos = end\<close>, where there is no element: \<^verbatim>\<open>std::destroy_at\<close> is applied to the slot
  after the last element and \<^verbatim>\<open>std::move\<close> to the range \<open>[end + 1, end)\<close>, which is
  undefined for every vector.
\<close>

theorem Erase_at_end_undefined:
  "Erase et (Vector_end v) v e = Undefined"
  by (simp add: Erase_def Vector_end_def Vector_begin_def Let_def RawMemory_plus_def
      destroy_at_def std_move_def split: option.splits)

text \<open>
  Claim C4.  Every public operation is claimed to preserve the invariant.  \<^verbatim>\<open>Resize\<close> does
  not: on the vector \<open>[7]\<close> with capacity \<open>4\<close>, which satisfies the invariant,
  \<^verbatim>\<open>Resize(2)\<close> returns with size \<open>2\<close> and the slot \<open>1\<close> empty.
\<close>

theorem Resize_breaks_invariant:
  "Vector_inv (vector_of [7] 3) \<and>
   Resize int_elem 2 (vector_of [7] 3) env0 =
     Returns ()
       (\<lparr>m_data = \<lparr>m_buffer = [Some 7, None, Some 0, None], m_capacity = 4\<rparr>, m_size = 2\<rparr>,
        \<lparr>ctr = 1, freed = []\<rparr>) \<and>
   \<not> Vector_inv \<lparr>m_data = \<lparr>m_buffer = [Some 7, None, Some 0, None], m_capacity = 4\<rparr>,
                   m_size = 2\<rparr>"
  by code_simp

text \<open>
  Claim C5.  When no element operation throws, appending the elements of \<open>xs\<close> to an empty
  vector returns a vector that stores \<open>xs\<close>, and for a non-empty \<open>xs\<close> its capacity is the
  smallest power of two that is at least \<open>length xs\<close>; one \<^verbatim>\<open>EmplaceBack\<close> changes the
  capacity exactly when the size equals it, to \<open>max 1 (2 * size)\<close>.  The sizes stay below
  \<open>2 ^ 63\<close>, so that doubling does not wrap.
\<close>

theorem PushBack_capacity_doubles:
  assumes "\<And>k. \<not> throws et k"
  shows "(length xs \<le> 2 ^ 63 \<longrightarrow>
           (\<exists>v e'. PushBack_all et xs Vector_default e = Returns () (v, e') \<and>
              m_size v = length xs \<and> elems v = map Some xs \<and>
              (xs \<noteq> [] \<longrightarrow>
                 (\<exists>m. Capacity v = 2 ^ m \<and> length xs \<le> 2 ^ m \<and>
                    (\<forall>j. length xs \<le> 2 ^ j \<longrightarrow> (2::nat) ^ m \<le> 2 ^ j))))) \<and>
         (Vector_inv w \<and> m_size w < 2 ^ 63 \<longrightarrow>
           (\<exists>w' e'. EmplaceBack et x w e = Returns (m_size w) (w', e') \<and>
              m_size w' = Suc (m_size w) \<and> elems w' = elems w @ [Some x] \<and>
              Capacity w' =
                (if m_size w = Capacity w then max 1 (2 * m_size w) else Capacity w)))"
proof (intro conjI impI)
  assume len: "length xs \<le> 2 ^ 63"
  have i0: "Vector_inv (Vector_default :: 'a Vector)"
    by (simp add: Vector_inv_def Vector_default_def RawMemory_default_def)
  have g0: "growth_inv (Vector_default :: 'a Vector)"
    by (simp add: growth_inv_def Vector_default_def RawMemory_default_def Capacity_def)
  have b0: "m_size (Vector_default :: 'a Vector) + length xs \<le> 2 ^ 63"
    using len by (simp add: Vector_default_def)
  from PushBack_all_gen[OF assms i0 g0 b0, of e]
  obtain v e' where r: "PushBack_all et xs Vector_default e = Returns () (v, e')"
    and iv: "Vector_inv v" and gv: "growth_inv v"
    and sz: "m_size v = m_size (Vector_default :: 'a Vector) + length xs"
    and el: "elems v = elems (Vector_default :: 'a Vector) @ map Some xs"
    by blast
  have sz': "m_size v = length xs"
    using sz by (simp add: Vector_default_def)
  have el': "elems v = map Some xs"
    using el by (simp add: elems_def Vector_default_def)
  have "\<exists>m. Capacity v = 2 ^ m \<and> length xs \<le> 2 ^ m \<and>
          (\<forall>j. length xs \<le> 2 ^ j \<longrightarrow> (2::nat) ^ m \<le> 2 ^ j)" if "xs \<noteq> []"
    using least_pow2[OF gv iv] that sz' by simp
  with r sz' el'
  show "\<exists>v e'. PushBack_all et xs Vector_default e = Returns () (v, e') \<and>
          m_size v = length xs \<and> elems v = map Some xs \<and>
          (xs \<noteq> [] \<longrightarrow>
             (\<exists>m. Capacity v = 2 ^ m \<and> length xs \<le> 2 ^ m \<and>
                (\<forall>j. length xs \<le> 2 ^ j \<longrightarrow> (2::nat) ^ m \<le> 2 ^ j)))"
    by blast
next
  assume "Vector_inv w \<and> m_size w < 2 ^ 63"
  then have iw: "Vector_inv w" and sw: "m_size w < 2 ^ 63"
    by simp_all
  from EmplaceBack_props[OF assms iw sw, of x e]
  show "\<exists>w' e'. EmplaceBack et x w e = Returns (m_size w) (w', e') \<and>
          m_size w' = Suc (m_size w) \<and> elems w' = elems w @ [Some x] \<and>
          Capacity w' = (if m_size w = Capacity w then max 1 (2 * m_size w) else Capacity w)"
    by blast
qed

theorem PushBack_capacity_doubles_witness:
  "(\<forall>k. \<not> throws int_elem k) \<and> length [1, 2, 3 :: int] \<le> 2 ^ 63 \<and>
   PushBack_all int_elem [1, 2, 3] Vector_default env0 =
     Returns () (vector_of [1, 2, 3] 1, \<lparr>ctr = 6, freed = [[], [None], [None, None]]\<rparr>) \<and>
   m_size (vector_of [1, 2, 3 :: int] 1) = length [1, 2, 3 :: int] \<and>
   elems (vector_of [1, 2, 3 :: int] 1) = map Some [1, 2, 3] \<and>
   (\<exists>m. Capacity (vector_of [1, 2, 3 :: int] 1) = 2 ^ m \<and> length [1, 2, 3 :: int] \<le> 2 ^ m \<and>
      (\<forall>j. length [1, 2, 3 :: int] \<le> 2 ^ j \<longrightarrow> (2::nat) ^ m \<le> 2 ^ j)) \<and>
   Capacity (vector_of [1, 2, 3 :: int] 1) = 4 \<and>
   Vector_inv (vector_of [1, 2, 3 :: int] 1) \<and> m_size (vector_of [1, 2, 3 :: int] 1) < 2 ^ 63 \<and>
   (\<exists>w' e'. EmplaceBack int_elem 4 (vector_of [1, 2, 3] 1) env0 = Returns 3 (w', e') \<and>
      m_size w' = 4 \<and> elems w' = map Some [1, 2, 3, 4] \<and> Capacity w' = 4)"
proof -
  let ?v = "vector_of [1, 2, 3 :: int] 1"
  have nt: "\<And>k. \<not> throws int_elem k"
    by (simp add: int_elem_def)
  have len: "length [1, 2, 3 :: int] \<le> 2 ^ 63"
    by simp
  have run: "PushBack_all int_elem [1, 2, 3] Vector_default env0 =
     Returns () (?v, \<lparr>ctr = 6, freed = [[], [None], [None, None]]\<rparr>)"
    by code_simp
  have cap: "Capacity ?v = 4"
    by (simp add: Capacity_def vector_of_def)
  have sz: "m_size ?v = 3"
    by (simp add: vector_of_def)
  have el: "elems ?v = map Some [1, 2, 3]"
    by (simp add: elems_def vector_of_def)
  have inv: "Vector_inv ?v \<and> m_size ?v < 2 ^ 63"
    by (simp add: Vector_inv_def vector_of_def)
  note T = PushBack_capacity_doubles[OF nt, of "[1, 2, 3]" env0 ?v 4]
  from T len obtain v e' where r: "PushBack_all int_elem [1, 2, 3] Vector_default env0 = Returns () (v, e')"
    and p: "m_size v = length [1, 2, 3 :: int]" "elems v = map Some [1, 2, 3]"
      "[1, 2, 3 :: int] \<noteq> [] \<longrightarrow> (\<exists>m. Capacity v = 2 ^ m \<and> length [1, 2, 3 :: int] \<le> 2 ^ m \<and>
         (\<forall>j. length [1, 2, 3 :: int] \<le> 2 ^ j \<longrightarrow> (2::nat) ^ m \<le> 2 ^ j))"
    by blast
  from r run have v: "v = ?v"
    by simp
  have a: "\<exists>m. Capacity ?v = 2 ^ m \<and> length [1, 2, 3 :: int] \<le> 2 ^ m \<and>
      (\<forall>j. length [1, 2, 3 :: int] \<le> 2 ^ j \<longrightarrow> (2::nat) ^ m \<le> 2 ^ j)"
    using p(3) unfolding v by simp
  from T inv obtain w' e'' where w: "EmplaceBack int_elem 4 ?v env0 = Returns (m_size ?v) (w', e'')"
      "m_size w' = Suc (m_size ?v)" "elems w' = elems ?v @ [Some 4]"
      "Capacity w' = (if m_size ?v = Capacity ?v then max 1 (2 * m_size ?v) else Capacity ?v)"
    by blast
  have b: "\<exists>w' e'. EmplaceBack int_elem 4 ?v env0 = Returns 3 (w', e') \<and>
      m_size w' = 4 \<and> elems w' = map Some [1, 2, 3, 4] \<and> Capacity w' = 4"
    using w by (simp add: vector_of_def Capacity_def elems_def)
  have p1: "m_size ?v = length [1, 2, 3 :: int]"
    using p(1) unfolding v .
  have p2: "elems ?v = map Some [1, 2, 3]"
    using p(2) unfolding v .
  show ?thesis
    using nt len run p1 p2 a cap inv b by blast
qed

text \<open>
  Claim C6.  When no element operation throws and both vectors satisfy the invariant,
  copy assignment returns normally, changes no other object, and leaves the target with
  the size and the stored sequence of the source.  When the source is a different object
  whose size exceeds the target's capacity, the target gets a new block of exactly the
  source's size holding the copies; otherwise the target keeps its block, the source's
  elements are followed by the emptied slots of the target's surplus elements, and the
  rest of the block is untouched.  For every element type, an exception that leaves the
  deep-copy branch leaves the store as it was.
\<close>

theorem copy_assignment_copies:
  "((\<forall>k. \<not> throws et k) \<and> Vector_inv (\<sigma> this) \<and> Vector_inv (\<sigma> rhs) \<longrightarrow>
     (\<exists>\<sigma>' e'. copy_assign et this rhs \<sigma> e = Returns () (\<sigma>', e') \<and>
        (\<forall>p. p \<noteq> this \<longrightarrow> \<sigma>' p = \<sigma> p) \<and>
        Vector_inv (\<sigma>' this) \<and> m_size (\<sigma>' this) = m_size (\<sigma> rhs) \<and>
        elems (\<sigma>' this) = elems (\<sigma> rhs) \<and>
        (this \<noteq> rhs \<and> Capacity (\<sigma> this) < m_size (\<sigma> rhs) \<longrightarrow>
           m_data (\<sigma>' this) = \<lparr>m_buffer = elems (\<sigma> rhs), m_capacity = m_size (\<sigma> rhs)\<rparr>) \<and>
        (this \<noteq> rhs \<and> m_size (\<sigma> rhs) \<le> Capacity (\<sigma> this) \<longrightarrow>
           Capacity (\<sigma>' this) = Capacity (\<sigma> this) \<and>
           m_buffer (m_data (\<sigma>' this)) =
             elems (\<sigma> rhs) @ replicate (m_size (\<sigma> this) - m_size (\<sigma> rhs)) None @
             drop (max (m_size (\<sigma> this)) (m_size (\<sigma> rhs))) (m_buffer (m_data (\<sigma> this)))))) \<and>
   (this \<noteq> rhs \<and> Capacity (\<sigma> this) < m_size (\<sigma> rhs) \<and>
      copy_assign et this rhs \<sigma> e = Throws (\<tau>, e1) \<longrightarrow> \<tau> = \<sigma>)"
proof (intro conjI impI)
  assume "(\<forall>k. \<not> throws et k) \<and> Vector_inv (\<sigma> this) \<and> Vector_inv (\<sigma> rhs)"
  then have nt: "\<And>k. \<not> throws et k" and inv: "Vector_inv (\<sigma> this)" and invr: "Vector_inv (\<sigma> rhs)"
    by simp_all
  let ?B = "m_buffer (m_data (\<sigma> this))"
  have len: "m_size (\<sigma> this) \<le> length ?B" and cap: "m_capacity (m_data (\<sigma> this)) = length ?B"
    using inv by (auto simp: Vector_inv_def)
  note er = elems_inv[OF invr]
  show "\<exists>\<sigma>' e'. copy_assign et this rhs \<sigma> e = Returns () (\<sigma>', e') \<and>
        (\<forall>p. p \<noteq> this \<longrightarrow> \<sigma>' p = \<sigma> p) \<and>
        Vector_inv (\<sigma>' this) \<and> m_size (\<sigma>' this) = m_size (\<sigma> rhs) \<and>
        elems (\<sigma>' this) = elems (\<sigma> rhs) \<and>
        (this \<noteq> rhs \<and> Capacity (\<sigma> this) < m_size (\<sigma> rhs) \<longrightarrow>
           m_data (\<sigma>' this) = \<lparr>m_buffer = elems (\<sigma> rhs), m_capacity = m_size (\<sigma> rhs)\<rparr>) \<and>
        (this \<noteq> rhs \<and> m_size (\<sigma> rhs) \<le> Capacity (\<sigma> this) \<longrightarrow>
           Capacity (\<sigma>' this) = Capacity (\<sigma> this) \<and>
           m_buffer (m_data (\<sigma>' this)) =
             elems (\<sigma> rhs) @ replicate (m_size (\<sigma> this) - m_size (\<sigma> rhs)) None @
             drop (max (m_size (\<sigma> this)) (m_size (\<sigma> rhs))) (m_buffer (m_data (\<sigma> this))))"
  proof (cases "this = rhs")
    case True
    then show ?thesis
      using inv by (simp add: copy_assign_def)
  next
    case ne: False
    show ?thesis
    proof (cases "m_capacity (m_data (\<sigma> this)) < m_size (\<sigma> rhs)")
      case True
      show ?thesis
        using ne True er
        by (simp add: copy_assign_deep[OF nt ne inv invr True] Vector_inv_def elems_def
            Capacity_def)
    next
      case False
      then have fits: "m_size (\<sigma> rhs) \<le> m_capacity (m_data (\<sigma> this))"
        by simp
      have l: "length (elems (\<sigma> rhs) @ replicate (m_size (\<sigma> this) - m_size (\<sigma> rhs)) None @
             drop (max (m_size (\<sigma> this)) (m_size (\<sigma> rhs))) ?B) = length ?B"
        using er(1) len fits cap by (simp add: max_def)
      show ?thesis
        using ne fits er l cap
        by (simp add: copy_assign_in_place[OF nt ne inv invr fits] Vector_inv_def
            Capacity_def set_buffer_def)
          (simp add: elems_def)
    qed
  qed
next
  assume "this \<noteq> rhs \<and> Capacity (\<sigma> this) < m_size (\<sigma> rhs) \<and>
      copy_assign et this rhs \<sigma> e = Throws (\<tau>, e1)"
  then show "\<tau> = \<sigma>"
    using copy_assign_deep_throws[of this rhs \<sigma> et e \<tau> e1] by (simp add: Capacity_def)
qed


theorem copy_assignment_copies_witness:
  "((\<forall>k. \<not> throws int_elem k) \<and>
    Vector_inv (store_of (vector_of [5] 0) (vector_of [1, 2 :: int] 0) 10) \<and>
    Vector_inv (store_of (vector_of [5] 0) (vector_of [1, 2 :: int] 0) 20)) \<and>
   (\<exists>\<sigma>' e'. copy_assign int_elem 10 20 (store_of (vector_of [5] 0) (vector_of [1, 2] 0)) env0 =
        Returns () (\<sigma>', e') \<and>
      \<sigma>' 20 = vector_of [1, 2] 0 \<and> m_size (\<sigma>' 10) = 2 \<and> elems (\<sigma>' 10) = [Some 1, Some 2] \<and>
      m_data (\<sigma>' 10) = \<lparr>m_buffer = [Some 1, Some 2], m_capacity = 2\<rparr>) \<and>
   (Vector_inv (store_of (vector_of [5, 6, 7] 2) (vector_of [1, 2 :: int] 0) 10) \<and>
    Vector_inv (store_of (vector_of [5, 6, 7] 2) (vector_of [1, 2 :: int] 0) 20)) \<and>
   (\<exists>\<sigma>' e'. copy_assign int_elem 10 20 (store_of (vector_of [5, 6, 7] 2) (vector_of [1, 2] 0)) env0 =
        Returns () (\<sigma>', e') \<and>
      \<sigma>' 20 = vector_of [1, 2] 0 \<and> m_size (\<sigma>' 10) = 2 \<and> Capacity (\<sigma>' 10) = 5 \<and>
      m_buffer (m_data (\<sigma>' 10)) = [Some 1, Some 2, None, None, None]) \<and>
   ((10::nat) \<noteq> 20 \<and>
    Capacity (store_of (vector_of [5] 0) (vector_of [1, 2 :: int] 0) 10) <
      m_size (store_of (vector_of [5] 0) (vector_of [1, 2 :: int] 0) 20) \<and>
    copy_assign (copy_elem (\<lambda>n. n = 1)) 10 20 (store_of (vector_of [5] 0) (vector_of [1, 2] 0)) env0 =
      Throws (store_of (vector_of [5] 0) (vector_of [1, 2] 0), \<lparr>ctr = 2, freed = [[None, None]]\<rparr>))"
proof -
  let ?s = "store_of (vector_of [5] 0) (vector_of [1, 2 :: int] 0)"
  let ?t = "store_of (vector_of [5, 6, 7] 2) (vector_of [1, 2 :: int] 0)"
  have nt: "\<forall>k. \<not> throws int_elem k"
    by (simp add: int_elem_def)
  have h1: "Vector_inv (?s 10) \<and> Vector_inv (?s 20)"
    by (simp add: store_of_def Vector_inv_def vector_of_def)
  have h2: "Vector_inv (?t 10) \<and> Vector_inv (?t 20)"
    by (simp add: store_of_def Vector_inv_def vector_of_def)
  have v: "?s 10 = vector_of [5] 0" "?s 20 = vector_of [1, 2] 0"
      "?t 10 = vector_of [5, 6, 7] 2" "?t 20 = vector_of [1, 2] 0"
    by (simp_all add: store_of_def)
  have ev: "Capacity (vector_of [5 :: int] 0) = 1" "m_size (vector_of [1, 2 :: int] 0) = 2"
      "elems (vector_of [1, 2 :: int] 0) = [Some 1, Some 2]"
      "Capacity (vector_of [5, 6, 7 :: int] 2) = 5" "m_size (vector_of [5, 6, 7 :: int] 2) = 3"
      "m_buffer (m_data (vector_of [5, 6, 7 :: int] 2)) = [Some 5, Some 6, Some 7, None, None]"
    by (simp_all add: Capacity_def vector_of_def elems_def eval_nat_numeral)
  from copy_assignment_copies[of int_elem ?s 10 20 env0] nt h1
  obtain \<sigma>1 e1 where a: "copy_assign int_elem 10 20 ?s env0 = Returns () (\<sigma>1, e1)"
    "\<forall>p. p \<noteq> 10 \<longrightarrow> \<sigma>1 p = ?s p" "m_size (\<sigma>1 10) = m_size (?s 20)" "elems (\<sigma>1 10) = elems (?s 20)"
    "(10::nat) \<noteq> 20 \<and> Capacity (?s 10) < m_size (?s 20) \<longrightarrow>
       m_data (\<sigma>1 10) = \<lparr>m_buffer = elems (?s 20), m_capacity = m_size (?s 20)\<rparr>"
    by blast
  have A: "\<exists>\<sigma>' e'. copy_assign int_elem 10 20 ?s env0 = Returns () (\<sigma>', e') \<and>
      \<sigma>' 20 = vector_of [1, 2] 0 \<and> m_size (\<sigma>' 10) = 2 \<and> elems (\<sigma>' 10) = [Some 1, Some 2] \<and>
      m_data (\<sigma>' 10) = \<lparr>m_buffer = [Some 1, Some 2], m_capacity = 2\<rparr>"
    using a by (simp add: v ev)
  from copy_assignment_copies[of int_elem ?t 10 20 env0] nt h2
  obtain \<sigma>2 e2 where b: "copy_assign int_elem 10 20 ?t env0 = Returns () (\<sigma>2, e2)"
    "\<forall>p. p \<noteq> 10 \<longrightarrow> \<sigma>2 p = ?t p" "m_size (\<sigma>2 10) = m_size (?t 20)"
    "(10::nat) \<noteq> 20 \<and> m_size (?t 20) \<le> Capacity (?t 10) \<longrightarrow>
       Capacity (\<sigma>2 10) = Capacity (?t 10) \<and>
       m_buffer (m_data (\<sigma>2 10)) =
         elems (?t 20) @ replicate (m_size (?t 10) - m_size (?t 20)) None @
         drop (max (m_size (?t 10)) (m_size (?t 20))) (m_buffer (m_data (?t 10)))"
    by blast
  have B: "\<exists>\<sigma>' e'. copy_assign int_elem 10 20 ?t env0 = Returns () (\<sigma>', e') \<and>
      \<sigma>' 20 = vector_of [1, 2] 0 \<and> m_size (\<sigma>' 10) = 2 \<and> Capacity (\<sigma>' 10) = 5 \<and>
      m_buffer (m_data (\<sigma>' 10)) = [Some 1, Some 2, None, None, None]"
    using b by (simp add: v ev)
  have vc: "Vector_copy (copy_elem (\<lambda>n. n = 1)) (vector_of [1, 2] 0) env0 =
      Throws \<lparr>ctr = 2, freed = [[None, None]]\<rparr>"
    by code_simp
  have C: "copy_assign (copy_elem (\<lambda>n. n = 1)) 10 20 ?s env0 =
      Throws (?s, \<lparr>ctr = 2, freed = [[None, None]]\<rparr>)"
    by (simp add: copy_assign_def v vc ev[unfolded Capacity_def] del: One_nat_def)
  have D: "(10::nat) \<noteq> 20 \<and> Capacity (?s 10) < m_size (?s 20)"
    by (simp add: v ev)
  from copy_assignment_copies[of "copy_elem (\<lambda>n. n = 1)" ?s 10 20 env0 ?s
      "\<lparr>ctr = 2, freed = [[None, None]]\<rparr>"] C D
  have "?s = ?s"
    by blast
  with nt h1 h2 A B C D show ?thesis
    by blast
qed

text \<open>
  Claim C7.  The move constructor returns normally with the new vector equal to the
  source and the source equal to the default-constructed vector, of size \<open>0\<close>; move
  assignment returns normally with the two objects exchanged (nothing changes when both
  are the same object).  Neither performs an element operation or frees a block: the
  environment is unchanged.
\<close>

theorem move_swaps_with_source:
  "Vector_move a e = Returns a (Vector_default, e) \<and>
   m_size (Vector_default :: 'a Vector) = 0 \<and>
   move_assign this rhs \<sigma> e = Returns () (\<sigma>(rhs := \<sigma> this, this := \<sigma> rhs), e)"
  by (auto simp add: Vector_move_def Swap_def RawMemory_Swap_def Vector_default_def
      RawMemory_default_def move_assign_def Swap_at_def)

text \<open>
  Claim C8.  For a position before \<open>begin\<close> or after \<open>end\<close>, \<^verbatim>\<open>Insert\<close>, \<^verbatim>\<open>Emplace\<close> and
  \<^verbatim>\<open>Erase\<close> return the end position normally and leave the vector and the environment
  as they were.
\<close>

theorem invalid_position_is_no_op:
  assumes "pos < Vector_begin v \<or> Vector_end v < pos"
  shows "Insert et pos x v e = Returns (Vector_end v) (v, e) \<and>
         Emplace et pos x v e = Returns (Vector_end v) (v, e) \<and>
         Erase et pos v e = Returns (Vector_end v) (v, e)"
  using assms by (auto simp add: Insert_def Emplace_def Erase_def)

theorem invalid_position_is_no_op_witness:
  "((5::int) < Vector_begin (vector_of [1, 2, 3 :: int] 1) \<or>
      Vector_end (vector_of [1, 2, 3 :: int] 1) < 5) \<and>
   Insert (copy_elem (\<lambda>_. True)) 5 9 (vector_of [1, 2, 3] 1) env0 =
     Returns 3 (vector_of [1, 2, 3] 1, env0) \<and>
   Emplace (copy_elem (\<lambda>_. True)) 5 9 (vector_of [1, 2, 3] 1) env0 =
     Returns 3 (vector_of [1, 2, 3] 1, env0) \<and>
   Erase (copy_elem (\<lambda>_. True)) 5 (vector_of [1, 2, 3] 1) env0 =
     Returns 3 (vector_of [1, 2, 3] 1, env0)"
proof -
  have h: "(5::int) < Vector_begin (vector_of [1, 2, 3 :: int] 1) \<or>
      Vector_end (vector_of [1, 2, 3 :: int] 1) < 5"
    by (simp add: Vector_end_def vector_of_def)
  have e: "Vector_end (vector_of [1, 2, 3 :: int] 1) = 3"
    by (simp add: Vector_end_def vector_of_def)
  from invalid_position_is_no_op[OF h, of "copy_elem (\<lambda>_. True)" 9 env0] h e
  show ?thesis by simp
qed

text \<open>
  Claim C9.  When no element operation throws, inserting a value at a position in
  \<open>[begin, end]\<close> of a vector that satisfies the invariant and then erasing at the same
  position returns a vector of the original size that stores the original sequence.  The
  size is below \<open>2 ^ 63\<close>, so that growing does not wrap.
\<close>

theorem Insert_then_Erase_round_trip:
  assumes nt: "\<And>k. \<not> throws et k"
    and inv: "Vector_inv v"
    and small: "m_size v < 2 ^ 63"
    and pos: "Vector_begin v \<le> pos \<and> pos \<le> Vector_end v"
  shows "\<exists>v1 e1 v2 e2.
           Insert et pos x v e = Returns pos (v1, e1) \<and>
           Erase et pos v1 e1 = Returns pos (v2, e2) \<and>
           Vector_inv v2 \<and> m_size v2 = m_size v \<and> elems v2 = elems v"
proof -
  define idx where "idx = nat pos"
  have p: "pos = int idx" and idx: "idx \<le> m_size v"
    using pos by (auto simp add: idx_def Vector_begin_def Vector_end_def)
  from Emplace_props[OF nt inv small idx, of x e]
  obtain v1 e1 where ins: "Emplace et (int idx) x v e = Returns (int idx) (v1, e1)"
    and inv1: "Vector_inv v1" and sz1: "m_size v1 = Suc (m_size v)"
    and el1: "elems v1 = take idx (elems v) @ Some x # drop idx (elems v)"
    by blast
  have small1: "m_size v1 < 2 ^ 64"
    using small sz1 by simp
  have idx1: "idx < m_size v1"
    using idx sz1 by simp
  from Erase_props[OF nt inv1 small1 idx1, of e1]
  obtain v2 e2 where er: "Erase et (int idx) v1 e1 = Returns (int idx) (v2, e2)"
    and inv2: "Vector_inv v2" and sz2: "m_size v2 = m_size v1 - 1"
    and el2: "elems v2 = take idx (elems v1) @ drop (Suc idx) (elems v1)"
    by blast
  have lenE: "length (elems v) = m_size v"
    using inv by (simp add: elems_def Vector_inv_def)
  have "elems v2 = elems v"
    unfolding el2 el1 using idx lenE by simp
  moreover have "m_size v2 = m_size v"
    using sz2 sz1 by simp
  ultimately show ?thesis
    using ins er inv2 unfolding p Insert_def by blast
qed

theorem Insert_then_Erase_round_trip_witness:
  "(\<forall>k. \<not> throws int_elem k) \<and> Vector_inv (vector_of [1, 2, 3 :: int] 1) \<and>
   m_size (vector_of [1, 2, 3 :: int] 1) < 2 ^ 63 \<and>
   Vector_begin (vector_of [1, 2, 3 :: int] 1) \<le> 1 \<and> 1 \<le> Vector_end (vector_of [1, 2, 3 :: int] 1) \<and>
   Insert int_elem 1 9 (vector_of [1, 2, 3] 1) env0 =
     Returns 1 (vector_of [1, 9, 2, 3] 0, \<lparr>ctr = 4, freed = []\<rparr>) \<and>
   (\<exists>v2 e2. Erase int_elem 1 (vector_of [1, 9, 2, 3] 0) \<lparr>ctr = 4, freed = []\<rparr> = Returns 1 (v2, e2) \<and>
      Vector_inv v2 \<and> m_size v2 = 3 \<and> elems v2 = [Some 1, Some 2, Some 3])"
proof -
  let ?v = "vector_of [1, 2, 3 :: int] 1"
  have nt: "\<And>k. \<not> throws int_elem k"
    by (simp add: int_elem_def)
  have inv: "Vector_inv ?v" and small: "m_size ?v < 2 ^ 63"
    and pos: "Vector_begin ?v \<le> 1 \<and> 1 \<le> Vector_end ?v"
    by (simp_all add: Vector_inv_def vector_of_def Vector_begin_def Vector_end_def)
  have ins: "Insert int_elem 1 9 ?v env0 =
     Returns 1 (vector_of [1, 9, 2, 3] 0, \<lparr>ctr = 4, freed = []\<rparr>)"
    by code_simp
  from Insert_then_Erase_round_trip[OF nt inv small pos, of 9 env0]
  obtain v1 e1 v2 e2 where a: "Insert int_elem 1 9 ?v env0 = Returns 1 (v1, e1)"
    and b: "Erase int_elem 1 v1 e1 = Returns 1 (v2, e2)"
    and c: "Vector_inv v2" "m_size v2 = m_size ?v" "elems v2 = elems ?v"
    by blast
  from a ins have v1: "v1 = vector_of [1, 9, 2, 3] 0" "e1 = \<lparr>ctr = 4, freed = []\<rparr>"
    by simp_all
  have d: "m_size ?v = 3" "elems ?v = [Some 1, Some 2, Some 3]"
    by (simp_all add: vector_of_def elems_def)
  have "\<exists>v2 e2. Erase int_elem 1 (vector_of [1, 9, 2, 3] 0) \<lparr>ctr = 4, freed = []\<rparr> = Returns 1 (v2, e2) \<and>
      Vector_inv v2 \<and> m_size v2 = 3 \<and> elems v2 = [Some 1, Some 2, Some 3]"
    using b c unfolding v1 d by blast
  with nt inv small pos ins show ?thesis
    by blast
qed

text \<open>
  Claim C10.  Copy assignment and move assignment of an object to itself return normally
  and change neither the store, and so no size, capacity or element, nor the environment.
\<close>

theorem self_assignment_is_no_op:
  "copy_assign et a a \<sigma> e = Returns () (\<sigma>, e) \<and> move_assign a a \<sigma> e = Returns () (\<sigma>, e)"
  by (simp add: copy_assign_def move_assign_def)

end
